theory Spec2Isabelle
  imports Complex_Main "HOL-Library.Multiset"
begin

section \<open>Constants and rectangles\<close>

text \<open>
  The screen is 800 by 600 pixels and is divided into cells of 20 pixels
  (\<^verbatim>\<open>WIDTH, HEIGHT = 800, 600\<close> and \<^verbatim>\<open>GRID_SIZE = 20\<close>).
\<close>

definition WIDTH :: int where
  "WIDTH = 800"

definition HEIGHT :: int where
  "HEIGHT = 600"

definition GRID_SIZE :: int where
  "GRID_SIZE = 20"

text \<open>
  A \<^verbatim>\<open>pygame.Rect\<close> with its \<^verbatim>\<open>x\<close>, \<^verbatim>\<open>y\<close>, \<^verbatim>\<open>w\<close> and \<^verbatim>\<open>h\<close>. Every rectangle of the
  game has integer coordinates and a positive width and height; for such rectangles
  \<^verbatim>\<open>colliderect\<close> is the strict overlap test of the two half-open boxes and
  \<^verbatim>\<open>collidepoint\<close> is membership in the half-open box.
\<close>

record Rect =
  rect_x :: int
  rect_y :: int
  rect_w :: int
  rect_h :: int

definition mk_rect :: "int \<Rightarrow> int \<Rightarrow> int \<Rightarrow> int \<Rightarrow> Rect" where
  "mk_rect x y w h = \<lparr>rect_x = x, rect_y = y, rect_w = w, rect_h = h\<rparr>"

definition colliderect :: "Rect \<Rightarrow> Rect \<Rightarrow> bool" where
  "colliderect a b \<longleftrightarrow>
     rect_x a < rect_x b + rect_w b \<and> rect_y a < rect_y b + rect_h b \<and>
     rect_x b < rect_x a + rect_w a \<and> rect_y b < rect_y a + rect_h a"

definition collidepoint :: "Rect \<Rightarrow> int \<times> int \<Rightarrow> bool" where
  "collidepoint r p \<longleftrightarrow>
     rect_x r \<le> fst p \<and> fst p < rect_x r + rect_w r \<and>
     rect_y r \<le> snd p \<and> snd p < rect_y r + rect_h r"

definition forbidden_pause :: Rect where
  "forbidden_pause = mk_rect (WIDTH - 60) 20 40 40"

definition forbidden_score :: Rect where
  "forbidden_score = mk_rect 0 0 150 50"

section \<open>The random source\<close>

text \<open>
  The game draws from Python's \<^verbatim>\<open>random\<close> module. A draw is modelled by a raw
  natural number supplied from outside: \<^verbatim>\<open>randrange(start, stop, step)\<close> has
  \<open>(stop - start + step - 1) div step\<close> possible results, and \<^verbatim>\<open>choice\<close> picks
  an element of a non-empty list, so every result the library can return is the image of
  some raw number and no other value is.
\<close>

definition randrange :: "int \<Rightarrow> int \<Rightarrow> int \<Rightarrow> nat \<Rightarrow> int" where
  "randrange start stop step r =
     start + step * (int r mod ((stop - start + step - 1) div step))"

definition choice :: "int list \<Rightarrow> nat \<Rightarrow> int" where
  "choice xs r = xs ! (r mod length xs)"

section \<open>Snake\<close>

datatype dir = UP | DOWN | LEFT | RIGHT

record Snake =
  head :: "int \<times> int"
  body :: "(int \<times> int) list"
  direction :: dir
  new_direction :: dir
  grow :: bool

definition Snake_init :: Snake where
  "Snake_init = \<lparr>head = (WIDTH div 2, HEIGHT div 2), body = [], direction = RIGHT,
     new_direction = RIGHT, grow = False\<rparr>"

text \<open>
  \<^verbatim>\<open>Snake.move\<close>, statement by statement: the four \<^verbatim>\<open>if\<close>s that commit the
  buffered direction, the insertion of the head at the front of the body, the
  \<^verbatim>\<open>pop\<close> of the last element (the list has at least the element just inserted, so
  \<^verbatim>\<open>pop\<close> cannot raise) or the reset of \<^verbatim>\<open>grow\<close>, and the step of the head.
\<close>

definition commit_direction :: "Snake \<Rightarrow> Snake" where
  "commit_direction s =
     (let s1 = (if new_direction s = RIGHT \<and> direction s \<noteq> LEFT
                then s\<lparr>direction := RIGHT\<rparr> else s);
          s2 = (if new_direction s1 = LEFT \<and> direction s1 \<noteq> RIGHT
                then s1\<lparr>direction := LEFT\<rparr> else s1);
          s3 = (if new_direction s2 = UP \<and> direction s2 \<noteq> DOWN
                then s2\<lparr>direction := UP\<rparr> else s2)
      in (if new_direction s3 = DOWN \<and> direction s3 \<noteq> UP
          then s3\<lparr>direction := DOWN\<rparr> else s3))"

definition insert_head :: "Snake \<Rightarrow> Snake" where
  "insert_head s = s\<lparr>body := head s # body s\<rparr>"

definition pop_or_keep :: "Snake \<Rightarrow> Snake" where
  "pop_or_keep s = (if \<not> grow s then s\<lparr>body := butlast (body s)\<rparr> else s\<lparr>grow := False\<rparr>)"

definition move_head :: "Snake \<Rightarrow> Snake" where
  "move_head s =
     (case direction s of
        RIGHT \<Rightarrow> s\<lparr>head := (fst (head s) + GRID_SIZE, snd (head s))\<rparr>
      | LEFT \<Rightarrow> s\<lparr>head := (fst (head s) - GRID_SIZE, snd (head s))\<rparr>
      | UP \<Rightarrow> s\<lparr>head := (fst (head s), snd (head s) - GRID_SIZE)\<rparr>
      | DOWN \<Rightarrow> s\<lparr>head := (fst (head s), snd (head s) + GRID_SIZE)\<rparr>)"

definition move :: "Snake \<Rightarrow> Snake" where
  "move s = move_head (pop_or_keep (insert_head (commit_direction s)))"

section \<open>Food\<close>

text \<open>
  \<^verbatim>\<open>Food.spawn\<close> draws a cell until one is accepted. The draws come from a list of
  pairs of raw random numbers (one pair per iteration of the loop); the loop that has
  used up every pair without accepting one has not returned, which is \<open>None\<close>.
\<close>

fun food_spawn :: "(nat \<times> nat) list \<Rightarrow> (int \<times> int) option" where
  "food_spawn [] = None"
| "food_spawn ((r1, r2) # rs) =
     (let x = randrange 0 WIDTH GRID_SIZE r1;
          y = randrange 0 HEIGHT GRID_SIZE r2;
          food_rect = mk_rect x y GRID_SIZE GRID_SIZE
      in if colliderect food_rect forbidden_pause \<or> colliderect food_rect forbidden_score
         then food_spawn rs
         else Some (x, y))"

section \<open>Special food\<close>

text \<open>
  The fields \<^verbatim>\<open>x\<close>, \<^verbatim>\<open>y\<close>, \<^verbatim>\<open>dx\<close> and \<^verbatim>\<open>dy\<close> of the class carry the prefix
  \<open>sf_\<close> here; \<^verbatim>\<open>points\<close> is the constant 20.
\<close>

record SpecialFood =
  sf_x :: int
  sf_y :: int
  sf_dx :: int
  sf_dy :: int

definition points :: int where
  "points = 20"

definition get_rect :: "SpecialFood \<Rightarrow> Rect" where
  "get_rect f = mk_rect (sf_x f) (sf_y f) (2 * GRID_SIZE) GRID_SIZE"

fun special_spawn :: "(nat \<times> nat) list \<Rightarrow> (int \<times> int) option" where
  "special_spawn [] = None"
| "special_spawn ((r1, r2) # rs) =
     (let px = randrange 0 (WIDTH - 2 * GRID_SIZE) GRID_SIZE r1;
          py = randrange 0 (HEIGHT - GRID_SIZE) GRID_SIZE r2;
          special_rect = mk_rect px py (2 * GRID_SIZE) GRID_SIZE
      in if colliderect special_rect forbidden_pause \<or> colliderect special_rect forbidden_score
         then special_spawn rs
         else Some (px, py))"

definition velocities :: "int list" where
  "velocities = [-5, -4, 4, 5]"

text \<open>
  The constructor: \<^verbatim>\<open>spawn()\<close>, then the two velocity components by
  \<^verbatim>\<open>random.choice([-5, -4, 4, 5])\<close>.
\<close>

definition SpecialFood_init :: "(nat \<times> nat) list \<Rightarrow> nat \<Rightarrow> nat \<Rightarrow> SpecialFood option" where
  "SpecialFood_init draws r1 r2 =
     (case special_spawn draws of
        None \<Rightarrow> None
      | Some p \<Rightarrow> Some \<lparr>sf_x = fst p, sf_y = snd p, sf_dx = choice velocities r1,
                         sf_dy = choice velocities r2\<rparr>)"

text \<open>\<^verbatim>\<open>SpecialFood.update\<close>: the step, the two bounces off the edges, the escape.\<close>

definition update :: "SpecialFood \<Rightarrow> SpecialFood" where
  "update f =
     (let f1 = f\<lparr>sf_x := sf_x f + sf_dx f\<rparr>;
          f2 = f1\<lparr>sf_y := sf_y f1 + sf_dy f1\<rparr>;
          f3 = (if sf_x f2 < 0 \<or> sf_x f2 > WIDTH - 2 * GRID_SIZE
                then (let g = f2\<lparr>sf_dx := - sf_dx f2\<rparr> in g\<lparr>sf_x := sf_x g + sf_dx g\<rparr>) else f2);
          f4 = (if sf_y f3 < 0 \<or> sf_y f3 > HEIGHT - GRID_SIZE
                then (let g = f3\<lparr>sf_dy := - sf_dy f3\<rparr> in g\<lparr>sf_y := sf_y g + sf_dy g\<rparr>) else f3);
          special_rect = get_rect f4
      in if colliderect special_rect forbidden_pause \<or> colliderect special_rect forbidden_score
         then (let g1 = f4\<lparr>sf_dx := - sf_dx f4\<rparr>;
                   g2 = g1\<lparr>sf_dy := - sf_dy g1\<rparr>;
                   g3 = g2\<lparr>sf_x := sf_x g2 + sf_dx g2\<rparr>
               in g3\<lparr>sf_y := sf_y g3 + sf_dy g3\<rparr>)
         else f4)"

text \<open>
  The states a special food can be in: the ones its constructor makes and the ones
  \<^verbatim>\<open>update\<close> leads to from them.
\<close>

inductive special_reachable :: "SpecialFood \<Rightarrow> bool" where
  spawned: "SpecialFood_init draws r1 r2 = Some f \<Longrightarrow> special_reachable f"
| updated: "special_reachable f \<Longrightarrow> special_reachable (update f)"

section \<open>Settings and the tick rate\<close>

text \<open>
  The two global settings are Python floats. A finite float is modelled by the real
  number it denotes. \<^verbatim>\<open>int(v)\<close> on a finite float truncates toward zero.
\<close>

record settings =
  sound_volume :: real
  game_speed :: real

definition py_int :: "real \<Rightarrow> int" where
  "py_int v = (if 0 \<le> v then \<lfloor>v\<rfloor> else \<lceil>v\<rceil>)"

text \<open>
  Float arithmetic. A Python float is an IEEE 754 double: 53 significant bits, the
  least exponent -1022 (below it the spacing stays \<open>2 powi (- 1074)\<close>), and every
  operation returns the exact result rounded to the nearest double, a tie going to the
  even significand. The exponent \<open>e\<close> of a number \<open>x\<close> is the one with
  \<open>2 powi e \<le> \<bar>x\<bar> < 2 powi (e + 1)\<close>, found by counting up from 0 or down from -1;
  the doubles around \<open>x\<close> are the multiples of \<open>2 powi (e - 52)\<close>. A result whose
  rounded magnitude reaches \<open>2 ^ 1024\<close> is an infinity, which is \<open>None\<close> here.
\<close>

fun exponent_up :: "nat \<Rightarrow> int \<Rightarrow> real \<Rightarrow> int" where
  "exponent_up 0 e x = e"
| "exponent_up (Suc n) e x = (if x < 2 powi (e + 1) then e else exponent_up n (e + 1) x)"

fun exponent_down :: "nat \<Rightarrow> int \<Rightarrow> real \<Rightarrow> int" where
  "exponent_down 0 e x = e"
| "exponent_down (Suc n) e x = (if 2 powi e \<le> x then e else exponent_down n (e - 1) x)"

definition float_exponent :: "real \<Rightarrow> int" where
  "float_exponent x =
     (if 1 \<le> \<bar>x\<bar> then exponent_up 1024 0 \<bar>x\<bar> else exponent_down 1021 (- 1) \<bar>x\<bar>)"

definition round_even :: "real \<Rightarrow> int" where
  "round_even y =
     (let f = \<lfloor>y\<rfloor>; d = y - of_int f
      in if d < 1 / 2 then f else if 1 / 2 < d then f + 1 else if even f then f else f + 1)"

definition round_float :: "real \<Rightarrow> real" where
  "round_float x =
     (let u = 2 powi (float_exponent x - 52) in of_int (round_even (x / u)) * u)"

definition float_result :: "real \<Rightarrow> real option" where
  "float_result x = (let r = round_float x in if \<bar>r\<bar> < 2 ^ 1024 then Some r else None)"

definition float_mul :: "real \<Rightarrow> real \<Rightarrow> real option" where
  "float_mul a b = float_result (a * b)"

definition float_add :: "real \<Rightarrow> real \<Rightarrow> real option" where
  "float_add a b = float_result (a + b)"

text \<open>
  The expression \<^verbatim>\<open>int(10 + game_speed * 20)\<close>. The product and the sum are float
  operations (the integers 10 and 20 are converted exactly); an infinite product makes
  the sum infinite, and \<^verbatim>\<open>int\<close> of an infinity raises \<^verbatim>\<open>OverflowError\<close>, which
  is \<open>None\<close>.
\<close>

definition fps_of_speed :: "real \<Rightarrow> int option" where
  "fps_of_speed speed =
     (case float_mul speed 20 of
        None \<Rightarrow> None
      | Some p \<Rightarrow> (case float_add 10 p of None \<Rightarrow> None | Some v \<Rightarrow> Some (py_int v)))"

section \<open>The game loop\<close>

datatype key = K_RIGHT | K_LEFT | K_UP | K_DOWN | K_p | K_other

datatype event = QUIT | KEYDOWN key | MOUSEBUTTONDOWN "int \<times> int" | OTHER_EVENT

text \<open>
  What \<^verbatim>\<open>pause_menu\<close> does: it returns \<^verbatim>\<open>"resume"\<close> or \<^verbatim>\<open>"menu"\<close>, or the
  process exits on a \<^verbatim>\<open>QUIT\<close> event.
\<close>

datatype pause_result = Resume | Menu | Quit_paused

text \<open>
  The local variables of \<^verbatim>\<open>run_game\<close> that the loop reads and writes. Images,
  sounds, fonts, particles and drawing are left out: no variable kept here depends on
  them.
\<close>

record game =
  snake :: Snake
  food :: "int \<times> int"
  special_food :: "SpecialFood option"
  special_spawn_timer :: int
  score :: int
  failed :: bool
  current_fps :: int
  is_paused :: bool

text \<open>
  The state before the first iteration of the loop. The arguments are the value of the
  global \<^verbatim>\<open>game_speed\<close>, the clock reading and the draws of \<^verbatim>\<open>Food()\<close>. The
  loop is not reached when \<^verbatim>\<open>Food()\<close> does not return, or when the later
  \<^verbatim>\<open>int(10 + game_speed * 20)\<close> raises.
\<close>

datatype init_result = Init game | Init_hung | Init_OverflowError

definition run_game_init :: "real \<Rightarrow> int \<Rightarrow> (nat \<times> nat) list \<Rightarrow> init_result" where
  "run_game_init speed now draws =
     (case food_spawn draws of
        None \<Rightarrow> Init_hung
      | Some p \<Rightarrow>
          (case fps_of_speed speed of
             None \<Rightarrow> Init_OverflowError
           | Some fps \<Rightarrow>
               Init \<lparr>snake = Snake_init, food = p, special_food = None,
                     special_spawn_timer = now, score = 0, failed = False,
                     current_fps = fps, is_paused = False\<rparr>))"

text \<open>
  What one iteration of the loop takes from outside: the clock, the random draws of a
  new special food, the events of \<^verbatim>\<open>pygame.event.get()\<close>, the way the pause menu is
  left (read only when the game is paused), and the draws of \<^verbatim>\<open>food.spawn()\<close>.
\<close>

record tick_input =
  current_time :: int
  special_draws :: "(nat \<times> nat) list"
  dx_draw :: nat
  dy_draw :: nat
  events :: "event list"
  pause_menu :: pause_result
  food_draws :: "(nat \<times> nat) list"

definition pause_button_rect :: Rect where
  "pause_button_rect = mk_rect (WIDTH - 60) 20 40 40"

definition spawn_special_food :: "tick_input \<Rightarrow> game \<Rightarrow> game option" where
  "spawn_special_food inp g =
     (if special_food g = None \<and> current_time inp - special_spawn_timer g \<ge> 4000
      then (case SpecialFood_init (special_draws inp) (dx_draw inp) (dy_draw inp) of
              None \<Rightarrow> None
            | Some f \<Rightarrow> Some (g\<lparr>special_food := Some f\<rparr>))
      else Some g)"

text \<open>One event of the \<^verbatim>\<open>for\<close> loop; \<open>None\<close> is \<^verbatim>\<open>sys.exit()\<close>.\<close>

fun handle_event :: "event \<Rightarrow> game \<Rightarrow> game option" where
  "handle_event QUIT g = None"
| "handle_event (KEYDOWN k) g =
     (let g1 = (if \<not> is_paused g
                then (case k of
                        K_RIGHT \<Rightarrow> g\<lparr>snake := (snake g)\<lparr>new_direction := RIGHT\<rparr>\<rparr>
                      | K_LEFT \<Rightarrow> g\<lparr>snake := (snake g)\<lparr>new_direction := LEFT\<rparr>\<rparr>
                      | K_UP \<Rightarrow> g\<lparr>snake := (snake g)\<lparr>new_direction := UP\<rparr>\<rparr>
                      | K_DOWN \<Rightarrow> g\<lparr>snake := (snake g)\<lparr>new_direction := DOWN\<rparr>\<rparr>
                      | _ \<Rightarrow> g)
                else g)
      in Some (if k = K_p then g1\<lparr>is_paused := True\<rparr> else g1))"
| "handle_event (MOUSEBUTTONDOWN pos) g =
     Some (if collidepoint pause_button_rect pos then g\<lparr>is_paused := True\<rparr> else g)"
| "handle_event OTHER_EVENT g = Some g"

fun handle_events :: "event list \<Rightarrow> game \<Rightarrow> game option" where
  "handle_events [] g = Some g"
| "handle_events (e # es) g =
     (case handle_event e g of None \<Rightarrow> None | Some g' \<Rightarrow> handle_events es g')"

text \<open>The collision with the normal food; \<open>None\<close> when \<^verbatim>\<open>food.spawn()\<close> does not return.\<close>

definition eat_food :: "tick_input \<Rightarrow> game \<Rightarrow> game option" where
  "eat_food inp g =
     (if head (snake g) = food g
      then (case food_spawn (food_draws inp) of
              None \<Rightarrow> None
            | Some p \<Rightarrow>
                Some (g\<lparr>snake := (snake g)\<lparr>grow := True\<rparr>, food := p, score := score g + 10\<rparr>))
      else Some g)"

definition eat_special :: "tick_input \<Rightarrow> game \<Rightarrow> game" where
  "eat_special inp g =
     (case special_food g of
        None \<Rightarrow> g
      | Some f \<Rightarrow>
          (let special_rect = get_rect f;
               head_rect = mk_rect (fst (head (snake g))) (snd (head (snake g))) GRID_SIZE GRID_SIZE
           in if colliderect head_rect special_rect
              then g\<lparr>snake := (snake g)\<lparr>grow := True\<rparr>, score := score g + points,
                     special_food := None, special_spawn_timer := current_time inp\<rparr>
              else g))"

definition out_of_bounds :: "int \<times> int \<Rightarrow> bool" where
  "out_of_bounds h \<longleftrightarrow> fst h < 0 \<or> fst h \<ge> WIDTH \<or> snd h < 0 \<or> snd h \<ge> HEIGHT"

definition update_special :: "game \<Rightarrow> game" where
  "update_special g =
     (case special_food g of None \<Rightarrow> g | Some f \<Rightarrow> g\<lparr>special_food := Some (update f)\<rparr>)"

text \<open>
  How one iteration of the loop ends: the loop goes on with a new state, it is left by
  \<^verbatim>\<open>break\<close> (the game is over), the process exits, the player goes back to the main
  menu, or a spawn loop does not return.
\<close>

datatype outcome = Running game | Ended game | Exited | To_menu | Hung

text \<open>The iteration from \<^verbatim>\<open>snake.move()\<close> on.\<close>

definition after_pause :: "tick_input \<Rightarrow> game \<Rightarrow> outcome" where
  "after_pause inp g =
     (let g1 = g\<lparr>snake := move (snake g)\<rparr>
      in case eat_food inp g1 of
           None \<Rightarrow> Hung
         | Some g2 \<Rightarrow>
             (let g3 = eat_special inp g2
              in if out_of_bounds (head (snake g3)) then Ended (g3\<lparr>failed := True\<rparr>)
                 else if head (snake g3) \<in> set (body (snake g3)) then Ended (g3\<lparr>failed := True\<rparr>)
                 else Running (update_special g3)))"

definition tick :: "tick_input \<Rightarrow> game \<Rightarrow> outcome" where
  "tick inp g =
     (case spawn_special_food inp g of
        None \<Rightarrow> Hung
      | Some g1 \<Rightarrow>
          (case handle_events (events inp) g1 of
             None \<Rightarrow> Exited
           | Some g2 \<Rightarrow>
               (if is_paused g2
                then (case pause_menu inp of
                        Resume \<Rightarrow> after_pause inp (g2\<lparr>is_paused := False\<rparr>)
                      | Menu \<Rightarrow> To_menu
                      | Quit_paused \<Rightarrow> Exited)
                else after_pause inp g2)))"

text \<open>The loop over a list of inputs, one per iteration, for as long as it goes on.\<close>

fun run :: "tick_input list \<Rightarrow> game \<Rightarrow> outcome" where
  "run [] g = Running g"
| "run (inp # inps) g =
     (case tick inp g of Running g' \<Rightarrow> run inps g' | out \<Rightarrow> out)"

section \<open>Persistence\<close>

text \<open>
  What \<^verbatim>\<open>open\<close> followed by \<^verbatim>\<open>json.load\<close> meets: no file, a file that is not
  JSON, or a file with a value in it.
\<close>

datatype 'a stored = Missing | Unparseable | Parsed 'a

datatype exn = FileNotFoundError | JSONDecodeError

definition json_load :: "'a stored \<Rightarrow> exn + 'a" where
  "json_load f =
     (case f of
        Missing \<Rightarrow> Inl FileNotFoundError
      | Unparseable \<Rightarrow> Inl JSONDecodeError
      | Parsed v \<Rightarrow> Inr v)"

text \<open>
  \<^verbatim>\<open>load_settings\<close>: the settings file holds an object with numbers; the second
  argument is the value of the two globals before the call. \<^verbatim>\<open>except Exception\<close>
  catches every exception of the \<^verbatim>\<open>try\<close> block and leaves the globals as they are.
\<close>

definition dict_get :: "(string \<rightharpoonup> real) \<Rightarrow> string \<Rightarrow> real \<Rightarrow> real" where
  "dict_get m k d = (case m k of None \<Rightarrow> d | Some v \<Rightarrow> v)"

definition load_settings :: "(string \<rightharpoonup> real) stored \<Rightarrow> settings \<Rightarrow> exn + settings" where
  "load_settings f cur =
     (if f \<noteq> Missing
      then (case json_load f of
              Inl e \<Rightarrow> Inr cur
            | Inr m \<Rightarrow>
                Inr \<lparr>sound_volume = dict_get m ''sound_volume'' (1 / 2),
                     game_speed = dict_get m ''game_speed'' (4 / 10)\<rparr>)
      else Inr \<lparr>sound_volume = 1 / 2, game_speed = 1 / 10\<rparr>)"

text \<open>The values the two globals are given at the top of the module.\<close>

definition module_defaults :: settings where
  "module_defaults = \<lparr>sound_volume = 1 / 2, game_speed = 1 / 10\<rparr>"

section \<open>Leaderboard\<close>

text \<open>
  A record of the leaderboard is a dictionary with the keys \<^verbatim>\<open>username\<close>,
  \<^verbatim>\<open>score\<close> and \<^verbatim>\<open>date\<close>. User names are strings of ASCII characters, on which
  \<^verbatim>\<open>str.lower\<close> maps the letters A to Z to a to z and nothing else.
\<close>

record entry =
  username :: string
  score :: int
  date :: string

definition lower_char :: "char \<Rightarrow> char" where
  "lower_char c =
     (case map_of (zip ''ABCDEFGHIJKLMNOPQRSTUVWXYZ'' ''abcdefghijklmnopqrstuvwxyz'') c of
        None \<Rightarrow> c
      | Some d \<Rightarrow> d)"

definition lower :: "string \<Rightarrow> string" where
  "lower s = map lower_char s"

text \<open>
  \<^verbatim>\<open>Leaderboard.load\<close>: only \<^verbatim>\<open>FileNotFoundError\<close> is caught; any other exception
  leaves the method.
\<close>

definition Leaderboard_load :: "entry list stored \<Rightarrow> exn + entry list" where
  "Leaderboard_load f =
     (case json_load f of
        Inl FileNotFoundError \<Rightarrow> Inr []
      | Inl e \<Rightarrow> Inl e
      | Inr v \<Rightarrow> Inr v)"

definition same_user :: "string \<Rightarrow> entry \<Rightarrow> bool" where
  "same_user u s \<longleftrightarrow> lower (username s) = lower u"

text \<open>
  The assignment to the record that \<^verbatim>\<open>next(...)\<close> has found, which is the first
  matching one of the list: it is changed where it stands.
\<close>

fun set_existing :: "string \<Rightarrow> int \<Rightarrow> string \<Rightarrow> entry list \<Rightarrow> entry list" where
  "set_existing u sc now [] = []"
| "set_existing u sc now (s # ss) =
     (if same_user u s then s\<lparr>score := sc, date := now\<rparr> # ss
      else s # set_existing u sc now ss)"

text \<open>
  \<^verbatim>\<open>add_score\<close>, with the clock's string as third argument. A found record is a
  non-empty dictionary, so \<^verbatim>\<open>if existing\<close> holds exactly when one was found.
  \<^verbatim>\<open>sort(key=..., reverse=True)\<close> is stable: records of equal score keep their
  order, as the insertion sort on the negated score does. Writing the file back is left
  out.
\<close>

definition add_score :: "string \<Rightarrow> int \<Rightarrow> string \<Rightarrow> entry list \<Rightarrow> entry list" where
  "add_score u sc now scores =
     (let scores1 =
            (case find (same_user u) scores of
               Some existing \<Rightarrow>
                 (if sc > score existing then set_existing u sc now scores else scores)
             | None \<Rightarrow> scores @ [\<lparr>username = u, score = sc, date = now\<rparr>]);
          scores2 = sort_key (\<lambda>e. - score e) scores1
      in take 10 scores2)"

section \<open>Auxiliary notions for the statements\<close>

text \<open>
  The segments the snake has or is about to get: the cells of its body, and one more
  while \<^verbatim>\<open>grow\<close> is set.
\<close>

definition segments :: "game \<Rightarrow> int" where
  "segments g = int (length (body (snake g))) + (if grow (snake g) then 1 else 0)"

text \<open>
  The state in which an iteration reaches its two collision tests, right after
  \<^verbatim>\<open>snake.move()\<close>; \<open>None\<close> for an iteration that does not get there. The iteration
  eats the food when the test \<^verbatim>\<open>snake.head == food.position\<close> holds in this state,
  and the special food when there is one and the rectangle of the head meets its
  rectangle.
\<close>

definition at_collision_tests :: "tick_input \<Rightarrow> game \<Rightarrow> game option" where
  "at_collision_tests inp g =
     (case spawn_special_food inp g of
        None \<Rightarrow> None
      | Some g1 \<Rightarrow>
          (case handle_events (events inp) g1 of
             None \<Rightarrow> None
           | Some g2 \<Rightarrow>
               (if is_paused g2 \<and> pause_menu inp \<noteq> Resume then None
                else Some (g2\<lparr>is_paused := False, snake := move (snake g2)\<rparr>))))"

definition eats_food :: "tick_input \<Rightarrow> game \<Rightarrow> bool" where
  "eats_food inp g \<longleftrightarrow>
     (case at_collision_tests inp g of
        None \<Rightarrow> False
      | Some g1 \<Rightarrow> head (snake g1) = food g1)"

definition eats_special :: "tick_input \<Rightarrow> game \<Rightarrow> bool" where
  "eats_special inp g \<longleftrightarrow>
     (case at_collision_tests inp g of
        None \<Rightarrow> False
      | Some g1 \<Rightarrow>
          (case special_food g1 of
             None \<Rightarrow> False
           | Some f \<Rightarrow>
               colliderect
                 (mk_rect (fst (head (snake g1))) (snd (head (snake g1))) GRID_SIZE GRID_SIZE)
                 (get_rect f)))"

text \<open>
  What the iterations of a session have eaten, one pair per iteration that went through
  the collision tests: whether it ate the food, and whether it ate the special food.
\<close>

fun eating_log :: "tick_input list \<Rightarrow> game \<Rightarrow> (bool \<times> bool) list" where
  "eating_log [] g = []"
| "eating_log (inp # inps) g =
     (case tick inp g of
        Running g' \<Rightarrow> (eats_food inp g, eats_special inp g) # eating_log inps g'
      | Ended g' \<Rightarrow> [(eats_food inp g, eats_special inp g)]
      | _ \<Rightarrow> [])"

definition foods_eaten :: "tick_input list \<Rightarrow> game \<Rightarrow> int" where
  "foods_eaten inps g = int (length (filter fst (eating_log inps g)))"

definition specials_eaten :: "tick_input list \<Rightarrow> game \<Rightarrow> int" where
  "specials_eaten inps g = int (length (filter snd (eating_log inps g)))"

definition both_eaten :: "tick_input list \<Rightarrow> game \<Rightarrow> int" where
  "both_eaten inps g = int (length (filter (\<lambda>e. fst e \<and> snd e) (eating_log inps g)))"

definition eating_iterations :: "tick_input list \<Rightarrow> game \<Rightarrow> int" where
  "eating_iterations inps g = int (length (filter (\<lambda>e. fst e \<or> snd e) (eating_log inps g)))"

text \<open>
  A session at the speed 1/8 whose first food lies on the cell to the right of the
  snake's start, an iteration with no event and no special food in which a new food is
  drawn on that same cell, and the state after this iteration.
\<close>

definition example_game :: game where
  "example_game =
     \<lparr>snake = Snake_init, food = (420, 300), special_food = None,
      special_spawn_timer = 0, score = 0, failed = False,
      current_fps = 12, is_paused = False\<rparr>"

definition quiet_tick :: tick_input where
  "quiet_tick =
     \<lparr>current_time = 0, special_draws = [], dx_draw = 0, dy_draw = 0, events = [],
      pause_menu = Resume, food_draws = [(21, 15)]\<rparr>"

definition after_first_food :: game where
  "after_first_food =
     \<lparr>snake = \<lparr>head = (420, 300), body = [], direction = RIGHT, new_direction = RIGHT,
        grow = True\<rparr>,
      food = (420, 300), special_food = None,
      special_spawn_timer = 0, score = 10, failed = False,
      current_fps = 12, is_paused = False\<rparr>"

text \<open>
  A session whose food lies far from the snake. Four seconds after the start a special
  food appears on the cell to the right of the snake's start and is eaten in the same
  iteration; the next iteration adds the segment.
\<close>

definition special_game :: game where
  "special_game =
     \<lparr>snake = Snake_init, food = (0, 100), special_food = None,
      special_spawn_timer = 0, score = 0, failed = False,
      current_fps = 12, is_paused = False\<rparr>"

definition special_tick :: tick_input where
  "special_tick =
     \<lparr>current_time = 4000, special_draws = [(21, 15)], dx_draw = 2, dy_draw = 2, events = [],
      pause_menu = Resume, food_draws = []\<rparr>"

definition later_tick :: tick_input where
  "later_tick =
     \<lparr>current_time = 4100, special_draws = [], dx_draw = 0, dy_draw = 0, events = [],
      pause_menu = Resume, food_draws = []\<rparr>"

definition after_special_food :: game where
  "after_special_food =
     \<lparr>snake = \<lparr>head = (420, 300), body = [], direction = RIGHT, new_direction = RIGHT,
        grow = True\<rparr>,
      food = (0, 100), special_food = None,
      special_spawn_timer = 4000, score = 20, failed = False,
      current_fps = 12, is_paused = False\<rparr>"

definition after_special_growth :: game where
  "after_special_growth =
     \<lparr>snake = \<lparr>head = (440, 300), body = [(420, 300)], direction = RIGHT,
        new_direction = RIGHT, grow = False\<rparr>,
      food = (0, 100), special_food = None,
      special_spawn_timer = 4000, score = 20, failed = False,
      current_fps = 12, is_paused = False\<rparr>"

text \<open>
  Two iterations of the first session in which the snake eats: the first draws the new
  food one cell ahead of the head, the second draws the next food on the cell the head
  has just left.
\<close>

definition tick_food_ahead :: tick_input where
  "tick_food_ahead =
     \<lparr>current_time = 0, special_draws = [], dx_draw = 0, dy_draw = 0, events = [],
      pause_menu = Resume, food_draws = [(22, 15)]\<rparr>"

definition tick_food_behind :: tick_input where
  "tick_food_behind =
     \<lparr>current_time = 100, special_draws = [], dx_draw = 0, dy_draw = 0, events = [],
      pause_menu = Resume, food_draws = [(21, 15)]\<rparr>"

definition after_food_ahead :: game where
  "after_food_ahead =
     \<lparr>snake = \<lparr>head = (420, 300), body = [], direction = RIGHT, new_direction = RIGHT,
        grow = True\<rparr>,
      food = (440, 300), special_food = None,
      special_spawn_timer = 0, score = 10, failed = False,
      current_fps = 12, is_paused = False\<rparr>"

definition after_food_behind :: game where
  "after_food_behind =
     \<lparr>snake = \<lparr>head = (440, 300), body = [(420, 300)], direction = RIGHT,
        new_direction = RIGHT, grow = True\<rparr>,
      food = (420, 300), special_food = None,
      special_spawn_timer = 0, score = 20, failed = False,
      current_fps = 12, is_paused = False\<rparr>"

text \<open>The second of these iterations at its collision tests, the head on the food.\<close>

definition at_second_food :: game where
  "at_second_food =
     \<lparr>snake = \<lparr>head = (440, 300), body = [(420, 300)], direction = RIGHT,
        new_direction = RIGHT, grow = False\<rparr>,
      food = (440, 300), special_food = None,
      special_spawn_timer = 0, score = 10, failed = False,
      current_fps = 12, is_paused = False\<rparr>"

text \<open>The float nearest to 0.15, which is what the literal \<^verbatim>\<open>0.15\<close> denotes.\<close>

definition float_0_15 :: real where
  "float_0_15 = 5404319552844595 / 36028797018963968"

text \<open>Calls of \<^verbatim>\<open>add_score\<close> one after the other: user name, score and clock string of each.\<close>

fun add_scores :: "(string \<times> int \<times> string) list \<Rightarrow> entry list \<Rightarrow> entry list" where
  "add_scores [] scores = scores"
| "add_scores ((u, sc, now) # calls) scores = add_scores calls (add_score u sc now scores)"

definition new_entry :: "string \<times> int \<times> string \<Rightarrow> entry" where
  "new_entry c = \<lparr>username = fst c, score = fst (snd c), date = snd (snd c)\<rparr>"

text \<open>The place of a record that is sorted in behind a sorted list: after the records that
  do not come later than it.\<close>

fun behind :: "('a \<Rightarrow> int) \<Rightarrow> 'a \<Rightarrow> 'a list \<Rightarrow> 'a list" where
  "behind f n [] = [n]"
| "behind f n (a # as) = (if f a \<le> f n then a # behind f n as else n # a # as)"

text \<open>Eleven calls with eleven different user names.\<close>

definition eleven_calls :: "(string \<times> int \<times> string) list" where
  "eleven_calls =
     [(''a'', 30, ''t1''), (''B'', 10, ''t2''), (''c'', 50, ''t3''), (''D'', 20, ''t4''),
      (''e'', 70, ''t5''), (''F'', 40, ''t6''), (''g'', 90, ''t7''), (''H'', 60, ''t8''),
      (''i'', 110, ''t9''), (''J'', 80, ''t10''), (''k'', 100, ''t11'')]"

definition bob :: entry where
  "bob = \<lparr>username = ''Bob'', score = 90, date = ''t0''\<rparr>"

text \<open>
  A position is on the grid when both coordinates are multiples of \<^verbatim>\<open>GRID_SIZE\<close>
  inside the screen; a cell is allowed for the food when its rectangle meets neither the
  pause button nor the score display.
\<close>

definition on_grid :: "int \<times> int \<Rightarrow> bool" where
  "on_grid p \<longleftrightarrow>
     fst p mod GRID_SIZE = 0 \<and> snd p mod GRID_SIZE = 0 \<and>
     0 \<le> fst p \<and> fst p < WIDTH \<and> 0 \<le> snd p \<and> snd p < HEIGHT"

definition food_allowed :: "int \<times> int \<Rightarrow> bool" where
  "food_allowed p \<longleftrightarrow>
     \<not> colliderect (mk_rect (fst p) (snd p) GRID_SIZE GRID_SIZE) forbidden_pause \<and>
     \<not> colliderect (mk_rect (fst p) (snd p) GRID_SIZE GRID_SIZE) forbidden_score"

section \<open>Properties of the snake\<close>

lemmas move_defs = move_def move_head_def pop_or_keep_def insert_head_def commit_direction_def

lemma direction_move:
  "direction (move s) =
     (if (direction s = RIGHT \<and> new_direction s = LEFT) \<or> (direction s = LEFT \<and> new_direction s = RIGHT)
         \<or> (direction s = UP \<and> new_direction s = DOWN) \<or> (direction s = DOWN \<and> new_direction s = UP)
      then direction s else new_direction s)"
  by (cases "direction s"; cases "new_direction s") (simp_all add: move_defs Let_def)

lemma body_move:
  "body (move s) = (if grow s then head s # body s else butlast (head s # body s))"
  by (cases "direction s"; cases "new_direction s") (simp_all add: move_defs Let_def)

lemma head_move:
  "head (move s) =
     (case direction (move s) of
        RIGHT \<Rightarrow> (fst (head s) + GRID_SIZE, snd (head s))
      | LEFT \<Rightarrow> (fst (head s) - GRID_SIZE, snd (head s))
      | UP \<Rightarrow> (fst (head s), snd (head s) - GRID_SIZE)
      | DOWN \<Rightarrow> (fst (head s), snd (head s) + GRID_SIZE))"
  by (cases "direction s"; cases "new_direction s") (simp_all add: move_defs Let_def)

lemma grow_move: "grow (move s) = False"
  by (cases "direction s"; cases "new_direction s") (simp_all add: move_defs Let_def)

lemma new_direction_move: "new_direction (move s) = new_direction s"
  by (cases "direction s"; cases "new_direction s") (simp_all add: move_defs Let_def)

text \<open>
  Claim C3. When the buffered direction is the exact opposite of the current one (LEFT
  against RIGHT, RIGHT against LEFT, DOWN against UP, UP against DOWN), \<^verbatim>\<open>Snake.move\<close>
  keeps the current direction and the head goes one cell further in it; with the snake
  going RIGHT and LEFT buffered, the direction stays RIGHT and the head moves one cell to
  the right.
\<close>

theorem reversal_ignored:
  "(direction s = RIGHT \<and> new_direction s = LEFT \<longrightarrow>
      direction (move s) = RIGHT \<and> head (move s) = (fst (head s) + GRID_SIZE, snd (head s))) \<and>
   (direction s = LEFT \<and> new_direction s = RIGHT \<longrightarrow>
      direction (move s) = LEFT \<and> head (move s) = (fst (head s) - GRID_SIZE, snd (head s))) \<and>
   (direction s = UP \<and> new_direction s = DOWN \<longrightarrow>
      direction (move s) = UP \<and> head (move s) = (fst (head s), snd (head s) - GRID_SIZE)) \<and>
   (direction s = DOWN \<and> new_direction s = UP \<longrightarrow>
      direction (move s) = DOWN \<and> head (move s) = (fst (head s), snd (head s) + GRID_SIZE))"
  by (simp add: head_move direction_move)

theorem reversal_ignored_witness:
  "direction (move (Snake_init\<lparr>new_direction := LEFT\<rparr>)) = RIGHT \<and>
   head (move (Snake_init\<lparr>new_direction := LEFT\<rparr>)) = (420, 300)"
  using reversal_ignored [of "Snake_init\<lparr>new_direction := LEFT\<rparr>"]
  by (simp add: Snake_init_def WIDTH_def HEIGHT_def GRID_SIZE_def)

text \<open>
  Claim C4. One call of \<^verbatim>\<open>Snake.move\<close> commits the buffered direction unless it is
  the reverse of the current one, puts the head it was called with at the front of the
  body, removes the last element of that list when \<^verbatim>\<open>grow\<close> is false and otherwise
  clears \<^verbatim>\<open>grow\<close> and keeps the list (one element longer), and then moves the head
  by one \<^verbatim>\<open>GRID_SIZE\<close> in the committed direction. So the new body is the previous head
  followed by the previous body, without its last element unless the snake grows: for a
  non-empty previous body that is the previous head and the previous body less its tail
  cell, and for an empty previous body it is empty again.
\<close>

theorem move_in_order:
  "direction (commit_direction s) =
     (if (direction s = RIGHT \<and> new_direction s = LEFT) \<or> (direction s = LEFT \<and> new_direction s = RIGHT)
         \<or> (direction s = UP \<and> new_direction s = DOWN) \<or> (direction s = DOWN \<and> new_direction s = UP)
      then direction s else new_direction s) \<and>
   direction (move s) = direction (commit_direction s) \<and>
   body (insert_head (commit_direction s)) = head s # body s \<and>
   body (move s) = (if grow s then head s # body s else butlast (head s # body s)) \<and>
   (\<not> grow s \<and> body s \<noteq> [] \<longrightarrow> body (move s) = head s # butlast (body s)) \<and>
   (\<not> grow s \<and> body s = [] \<longrightarrow> body (move s) = []) \<and>
   length (body (move s)) = length (body s) + (if grow s then 1 else 0) \<and>
   grow (move s) = False \<and>
   new_direction (move s) = new_direction s \<and>
   head (move s) =
     (case direction (commit_direction s) of
        RIGHT \<Rightarrow> (fst (head s) + GRID_SIZE, snd (head s))
      | LEFT \<Rightarrow> (fst (head s) - GRID_SIZE, snd (head s))
      | UP \<Rightarrow> (fst (head s), snd (head s) - GRID_SIZE)
      | DOWN \<Rightarrow> (fst (head s), snd (head s) + GRID_SIZE))"
proof -
  have d: "direction (move s) = direction (commit_direction s)"
    by (cases "direction s"; cases "new_direction s") (simp_all add: move_defs Let_def)
  have b: "body (insert_head (commit_direction s)) = head s # body s"
    by (cases "direction s"; cases "new_direction s") (simp_all add: move_defs Let_def)
  show ?thesis
    using d b direction_move [of s] head_move [of s]
    by (simp add: body_move grow_move new_direction_move)
qed

theorem move_in_order_witness:
  "body (move \<lparr>head = (100, 40), body = [(80, 40), (60, 40)], direction = RIGHT,
       new_direction = DOWN, grow = False\<rparr>) = [(100, 40), (80, 40)] \<and>
   head (move \<lparr>head = (100, 40), body = [(80, 40), (60, 40)], direction = RIGHT,
       new_direction = DOWN, grow = False\<rparr>) = (100, 60)"
  using move_in_order [of "\<lparr>head = (100, 40), body = [(80, 40), (60, 40)], direction = RIGHT,
       new_direction = DOWN, grow = False\<rparr>"]
  by (simp add: GRID_SIZE_def)

section \<open>Properties of the float arithmetic\<close>

lemma exponent_up_numeral [simp]:
  "exponent_up (numeral k) e x =
     (if x < 2 powi (e + 1) then e else exponent_up (pred_numeral k) (e + 1) x)"
  by (simp add: numeral_eq_Suc)

lemma exponent_down_numeral [simp]:
  "exponent_down (numeral k) e x =
     (if 2 powi e \<le> x then e else exponent_down (pred_numeral k) (e - 1) x)"
  by (simp add: numeral_eq_Suc)

lemmas float_defs = fps_of_speed_def float_mul_def float_add_def float_result_def
  round_float_def float_exponent_def round_even_def py_int_def

lemma exponent_up_le:
  "x < 2 powi (k + 1) \<Longrightarrow> e \<le> k \<Longrightarrow> exponent_up n e x \<le> k"
proof (induction n arbitrary: e)
  case 0
  then show ?case by simp
next
  case (Suc n)
  show ?case
  proof (cases "x < 2 powi (e + 1)")
    case True
    with Suc.prems show ?thesis by simp
  next
    case False
    have "e + 1 \<le> k"
    proof (rule ccontr)
      assume "\<not> e + 1 \<le> k"
      with Suc.prems have "e = k" by simp
      with False Suc.prems show False by simp
    qed
    with Suc.IH [of "e + 1"] Suc.prems False show ?thesis by simp
  qed
qed

lemma exponent_down_le: "exponent_down n e x \<le> e"
proof (induction n arbitrary: e)
  case 0
  then show ?case by simp
next
  case (Suc n)
  from Suc.IH [of "e - 1"] show ?case by simp
qed

lemma float_exponent_le:
  assumes "\<bar>x\<bar> < 2 powi (k + 1)" and "0 \<le> k"
  shows "float_exponent x \<le> k"
proof (cases "1 \<le> \<bar>x\<bar>")
  case True
  with exponent_up_le [OF assms(1), of 0 1024] assms(2) show ?thesis
    by (simp add: float_exponent_def)
next
  case False
  with exponent_down_le [of 1021 "- 1" "\<bar>x\<bar>"] assms(2) show ?thesis
    by (simp add: float_exponent_def)
qed

lemma round_even_near: "\<bar>real_of_int (round_even y) - y\<bar> \<le> 1 / 2"
  by (simp add: round_even_def Let_def)

lemma round_even_ge: "real_of_int m \<le> y \<Longrightarrow> m \<le> round_even y"
proof -
  assume "real_of_int m \<le> y"
  then have "m \<le> \<lfloor>y\<rfloor>" by (simp add: le_floor_iff)
  then show ?thesis by (simp add: round_even_def Let_def)
qed

lemma round_even_le: "y \<le> real_of_int m \<Longrightarrow> round_even y \<le> m"
proof (cases "y = real_of_int m")
  case True
  then show ?thesis by (simp add: round_even_def Let_def)
next
  case False
  assume "y \<le> real_of_int m"
  with False have "y < real_of_int m" by simp
  then have "\<lfloor>y\<rfloor> < m" by (simp add: floor_less_iff)
  then show ?thesis by (simp add: round_even_def Let_def)
qed

text \<open>Rounding moves a number by at most half the spacing of the doubles around it.\<close>

lemma round_float_near:
  "\<bar>round_float x - x\<bar> \<le> 2 powi (float_exponent x - 52) / 2"
proof -
  define u :: real where "u = 2 powi (float_exponent x - 52)"
  have u: "0 < u" by (simp add: u_def)
  have "round_float x - x = (real_of_int (round_even (x / u)) - x / u) * u"
    using u by (simp add: round_float_def Let_def u_def algebra_simps)
  then have "\<bar>round_float x - x\<bar> = \<bar>real_of_int (round_even (x / u)) - x / u\<bar> * u"
    using u by (simp add: abs_mult)
  also have "\<dots> \<le> (1 / 2) * u"
    using round_even_near [of "x / u"] u by (intro mult_right_mono) simp_all
  finally show ?thesis by (simp add: u_def)
qed

lemma int_over_ulp:
  assumes "e \<le> 52"
  shows "real_of_int m / 2 powi (e - 52) = real_of_int (m * 2 ^ nat (52 - e))"
proof -
  have "(2::real) powi (e - 52) = 1 / 2 ^ nat (52 - e)"
    using assms by (simp add: power_int_def field_simps)
  then show ?thesis by simp
qed

text \<open>
  Below \<open>2 ^ 53\<close> every whole number is a double, so rounding does not carry a number
  across a whole number.
\<close>

lemma round_float_ge:
  assumes "real_of_int m \<le> x" and "float_exponent x \<le> 52"
  shows "real_of_int m \<le> round_float x"
proof -
  define u :: real where "u = 2 powi (float_exponent x - 52)"
  have u: "0 < u" by (simp add: u_def)
  from assms(1) u have "real_of_int m / u \<le> x / u" by (simp add: divide_right_mono)
  then have "real_of_int (m * 2 ^ nat (52 - float_exponent x)) \<le> x / u"
    using int_over_ulp [OF assms(2), of m] by (simp add: u_def)
  then have "m * 2 ^ nat (52 - float_exponent x) \<le> round_even (x / u)"
    by (rule round_even_ge)
  then have "real_of_int (m * 2 ^ nat (52 - float_exponent x)) \<le> real_of_int (round_even (x / u))"
    by linarith
  then have "real_of_int m / u \<le> real_of_int (round_even (x / u))"
    using int_over_ulp [OF assms(2), of m] by (simp add: u_def)
  then have "real_of_int m \<le> real_of_int (round_even (x / u)) * u"
    using u by (simp add: pos_divide_le_eq)
  then show ?thesis by (simp add: round_float_def Let_def u_def)
qed

lemma round_float_le:
  assumes "x \<le> real_of_int m" and "float_exponent x \<le> 52"
  shows "round_float x \<le> real_of_int m"
proof -
  define u :: real where "u = 2 powi (float_exponent x - 52)"
  have u: "0 < u" by (simp add: u_def)
  from assms(1) u have "x / u \<le> real_of_int m / u" by (simp add: divide_right_mono)
  then have "x / u \<le> real_of_int (m * 2 ^ nat (52 - float_exponent x))"
    using int_over_ulp [OF assms(2), of m] by (simp add: u_def)
  then have "round_even (x / u) \<le> m * 2 ^ nat (52 - float_exponent x)"
    by (rule round_even_le)
  then have "real_of_int (round_even (x / u)) \<le> real_of_int (m * 2 ^ nat (52 - float_exponent x))"
    by linarith
  then have "real_of_int (round_even (x / u)) \<le> real_of_int m / u"
    using int_over_ulp [OF assms(2), of m] by (simp add: u_def)
  then have "real_of_int (round_even (x / u)) * u \<le> real_of_int m"
    using u by (simp add: pos_le_divide_eq)
  then show ?thesis by (simp add: round_float_def Let_def u_def)
qed

lemma round_float_small:
  assumes "0 \<le> x" and "x \<le> 30"
  shows "\<bar>round_float x - x\<bar> \<le> 1 / 2 ^ 49" and "float_exponent x \<le> 52"
proof -
  from assms have "\<bar>x\<bar> < 2 powi (4 + 1)" by simp
  then have e: "float_exponent x \<le> 4" by (rule float_exponent_le) simp
  then show "float_exponent x \<le> 52" by simp
  from e have "(2::real) powi (float_exponent x - 52) \<le> 2 powi (- 48)"
    by (intro power_int_increasing) simp_all
  with round_float_near [of x] show "\<bar>round_float x - x\<bar> \<le> 1 / 2 ^ 49"
    by (simp add: power_int_minus field_simps)
qed

text \<open>
  The float value \<open>v\<close> of \<^verbatim>\<open>10 + game_speed * 20\<close> for a speed between 0 and 1: it is
  finite, it lies between 10 and 30, it is not below the whole part of the exact sum, and
  it exceeds the exact sum by at most \<open>1 / 2 ^ 48\<close>.
\<close>

lemma fps_of_speed_value:
  assumes "0 \<le> speed" and "speed \<le> 1"
  shows "\<exists>v. fps_of_speed speed = Some \<lfloor>v\<rfloor> \<and> 10 \<le> v \<and> v \<le> 30 \<and>
           real_of_int \<lfloor>10 + speed * 20\<rfloor> \<le> v \<and> v \<le> 10 + speed * 20 + 1 / 2 ^ 48"
proof -
  define x where "x = speed * 20"
  define p where "p = round_float x"
  define v where "v = round_float (10 + p)"
  define k where "k = \<lfloor>10 + x\<rfloor>"
  from assms have x: "0 \<le> x" "x \<le> 30" "x \<le> real_of_int 20" "real_of_int 0 \<le> x"
    by (simp_all add: x_def)
  have k: "real_of_int (k - 10) \<le> x"
    using of_int_floor_le [of "10 + x"] by (simp add: k_def)
  note sx = round_float_small [OF x(1) x(2)]
  have p0: "real_of_int 0 \<le> p" unfolding p_def using x(4) sx(2) by (rule round_float_ge)
  have p20: "p \<le> real_of_int 20" unfolding p_def using x(3) sx(2) by (rule round_float_le)
  have pk: "real_of_int (k - 10) \<le> p" unfolding p_def using k sx(2) by (rule round_float_ge)
  from p0 p20 have y: "0 \<le> 10 + p" "10 + p \<le> 30" by simp_all
  note sy = round_float_small [OF y]
  from p0 have "real_of_int 10 \<le> 10 + p" by simp
  then have v10: "real_of_int 10 \<le> v" unfolding v_def using sy(2) by (rule round_float_ge)
  from p20 have "10 + p \<le> real_of_int 30" by simp
  then have v30: "v \<le> real_of_int 30" unfolding v_def using sy(2) by (rule round_float_le)
  from pk have "real_of_int k \<le> 10 + p" by simp
  then have vk: "real_of_int k \<le> v" unfolding v_def using sy(2) by (rule round_float_ge)
  from sx(1) have a: "p \<le> x + 1 / 2 ^ 49" unfolding p_def by linarith
  from sy(1) have b: "v \<le> 10 + p + 1 / 2 ^ 49" unfolding v_def by linarith
  have "(1::real) / 2 ^ 49 + 1 / 2 ^ 49 = 1 / 2 ^ 48" by simp
  with a b have up: "v \<le> 10 + x + 1 / 2 ^ 48" by linarith
  from p0 p20 have fp: "float_mul speed 20 = Some p"
    by (simp add: float_mul_def float_result_def Let_def p_def [symmetric] x_def [symmetric])
  from v10 v30 have fv: "float_add 10 p = Some v"
    by (simp add: float_add_def float_result_def Let_def v_def [symmetric])
  from fp fv v10 have "fps_of_speed speed = Some \<lfloor>v\<rfloor>"
    by (simp add: fps_of_speed_def py_int_def)
  with v10 v30 vk up show ?thesis by (auto simp: k_def x_def)
qed

lemma fps_of_speed_bounds:
  assumes "0 \<le> speed" and "speed \<le> 1"
  shows "\<exists>fps. fps_of_speed speed = Some fps \<and> 10 \<le> fps \<and> fps \<le> 30 \<and>
           \<lfloor>10 + speed * 20\<rfloor> \<le> fps \<and> real_of_int fps \<le> 10 + speed * 20 + 1 / 2 ^ 48"
proof -
  from fps_of_speed_value [OF assms] obtain v where v: "fps_of_speed speed = Some \<lfloor>v\<rfloor>"
    "10 \<le> v" "v \<le> 30" "real_of_int \<lfloor>10 + speed * 20\<rfloor> \<le> v"
    "v \<le> 10 + speed * 20 + 1 / 2 ^ 48"
    by blast
  from v(2) have 1: "10 \<le> \<lfloor>v\<rfloor>" by (simp add: le_floor_iff)
  from v(3) have 2: "\<lfloor>v\<rfloor> \<le> 30" by (simp add: floor_le_iff)
  from v(4) have 3: "\<lfloor>10 + speed * 20\<rfloor> \<le> \<lfloor>v\<rfloor>" by (simp add: le_floor_iff)
  have "real_of_int \<lfloor>v\<rfloor> \<le> v" by (rule of_int_floor_le)
  with v(5) have 4: "real_of_int \<lfloor>v\<rfloor> \<le> 10 + speed * 20 + 1 / 2 ^ 48" by linarith
  from v(1) 1 2 3 4 show ?thesis by blast
qed

lemma fps_0_15: "fps_of_speed float_0_15 = Some 13"
  by (simp add: float_defs float_0_15_def Let_def)

lemma fps_eighth: "fps_of_speed (1 / 8) = Some 12"
  by (simp add: float_defs Let_def)

section \<open>Properties of the game loop\<close>

lemma handle_event_frame:
  "handle_event e g = Some g' \<Longrightarrow>
     body (snake g') = body (snake g) \<and> grow (snake g') = grow (snake g) \<and>
     head (snake g') = head (snake g) \<and> direction (snake g') = direction (snake g) \<and>
     game.score g' = game.score g \<and> current_fps g' = current_fps g"
  by (cases e) (auto simp: Let_def split: key.splits if_splits)

lemma handle_events_frame:
  "handle_events es g = Some g' \<Longrightarrow>
     body (snake g') = body (snake g) \<and> grow (snake g') = grow (snake g) \<and>
     head (snake g') = head (snake g) \<and> direction (snake g') = direction (snake g) \<and>
     game.score g' = game.score g \<and> current_fps g' = current_fps g"
proof (induction es arbitrary: g)
  case Nil
  then show ?case by simp
next
  case (Cons e es)
  then obtain g1 where e: "handle_event e g = Some g1" and es: "handle_events es g1 = Some g'"
    by (auto split: option.splits)
  from Cons.IH [OF es] handle_event_frame [OF e] show ?case by simp
qed

lemma spawn_special_food_frame:
  "spawn_special_food inp g = Some g' \<Longrightarrow>
     snake g' = snake g \<and> game.score g' = game.score g \<and> current_fps g' = current_fps g"
  by (auto simp: spawn_special_food_def split: if_splits option.splits)

lemma after_pause_fps:
  "after_pause inp g = Running g' \<or> after_pause inp g = Ended g' \<Longrightarrow>
     current_fps g' = current_fps g"
  by (auto simp: after_pause_def eat_food_def eat_special_def update_special_def Let_def
      split: if_splits option.splits)

text \<open>An iteration that goes on or ends the game has passed its three stages.\<close>

lemma tick_cases:
  assumes "tick inp g = Running g' \<or> tick inp g = Ended g'"
  obtains g1 g2 p where "spawn_special_food inp g = Some g1"
    and "handle_events (events inp) g1 = Some g2"
    and "after_pause inp (g2\<lparr>is_paused := p\<rparr>) = Running g' \<or>
         after_pause inp (g2\<lparr>is_paused := p\<rparr>) = Ended g'"
proof -
  from assms obtain g1 where 1: "spawn_special_food inp g = Some g1"
    by (auto simp: tick_def split: option.splits)
  with assms obtain g2 where 2: "handle_events (events inp) g1 = Some g2"
    by (auto simp: tick_def split: option.splits)
  show thesis
  proof (cases "is_paused g2")
    case True
    with assms 1 2 have "after_pause inp (g2\<lparr>is_paused := False\<rparr>) = Running g' \<or>
        after_pause inp (g2\<lparr>is_paused := False\<rparr>) = Ended g'"
      by (auto simp: tick_def split: pause_result.splits)
    with 1 2 show thesis by (rule that)
  next
    case False
    then have eq: "g2\<lparr>is_paused := False\<rparr> = g2" by simp
    from assms 1 2 False have "after_pause inp g2 = Running g' \<or> after_pause inp g2 = Ended g'"
      by (auto simp: tick_def)
    then have "after_pause inp (g2\<lparr>is_paused := False\<rparr>) = Running g' \<or>
        after_pause inp (g2\<lparr>is_paused := False\<rparr>) = Ended g'"
      by (simp only: eq)
    with 1 2 show thesis by (rule that)
  qed
qed

lemma tick_fps:
  assumes "tick inp g = Running g' \<or> tick inp g = Ended g'"
  shows "current_fps g' = current_fps g"
proof -
  from assms obtain g1 g2 p where 1: "spawn_special_food inp g = Some g1"
    and 2: "handle_events (events inp) g1 = Some g2"
    and 3: "after_pause inp (g2\<lparr>is_paused := p\<rparr>) = Running g' \<or>
            after_pause inp (g2\<lparr>is_paused := p\<rparr>) = Ended g'"
    by (rule tick_cases)
  from after_pause_fps [OF 3] handle_events_frame [OF 2] spawn_special_food_frame [OF 1]
  show ?thesis by simp
qed

lemma run_fps:
  "run inps g = Running g' \<or> run inps g = Ended g' \<Longrightarrow> current_fps g' = current_fps g"
proof (induction inps arbitrary: g)
  case Nil
  then show ?case by simp
next
  case (Cons inp inps)
  show ?case
  proof (cases "tick inp g")
    case (Running g1)
    with Cons.prems have "run inps g1 = Running g' \<or> run inps g1 = Ended g'" by simp
    from Cons.IH [OF this] tick_fps [of inp g g1] Running show ?thesis by simp
  next
    case (Ended g1)
    with Cons.prems have "g1 = g'" by simp
    with tick_fps [of inp g g1] Ended show ?thesis by simp
  qed (use Cons.prems in simp_all)
qed

text \<open>What an iteration that goes through the collision tests adds.\<close>

lemma tick_account:
  assumes "tick inp g = Running g' \<or> tick inp g = Ended g'"
  shows "game.score g' = game.score g + (if eats_food inp g then 10 else 0)
           + (if eats_special inp g then 20 else 0) \<and>
         segments g' = segments g + (if eats_food inp g \<or> eats_special inp g then 1 else 0)"
proof -
  from assms obtain g1 where 1: "spawn_special_food inp g = Some g1"
    by (auto simp: tick_def split: option.splits)
  with assms obtain g2 where 2: "handle_events (events inp) g1 = Some g2"
    by (auto simp: tick_def split: option.splits)
  define g3 where "g3 = g2\<lparr>is_paused := False\<rparr>"
  have r: "\<not> (is_paused g2 \<and> pause_menu inp \<noteq> Resume)"
    using assms 1 2 by (auto simp: tick_def split: pause_result.splits)
  have 3: "after_pause inp g3 = Running g' \<or> after_pause inp g3 = Ended g'"
  proof (cases "is_paused g2")
    case True
    with assms 1 2 show ?thesis
      by (auto simp: tick_def g3_def split: pause_result.splits)
  next
    case False
    then have "g3 = g2" by (simp add: g3_def)
    with assms 1 2 False show ?thesis by (auto simp: tick_def)
  qed
  from 1 2 r have t: "at_collision_tests inp g = Some (g3\<lparr>snake := move (snake g3)\<rparr>)"
    by (simp add: at_collision_tests_def g3_def)
  from handle_events_frame [OF 2] spawn_special_food_frame [OF 1]
  have f: "game.score g3 = game.score g" "segments g3 = segments g"
    by (simp_all add: g3_def segments_def)
  from 3 have "game.score g' = game.score g3 + (if eats_food inp g then 10 else 0)
           + (if eats_special inp g then 20 else 0) \<and>
         segments g' = segments g3 + (if eats_food inp g \<or> eats_special inp g then 1 else 0)"
    by (auto simp: after_pause_def eat_food_def eat_special_def update_special_def Let_def
        eats_food_def eats_special_def t segments_def body_move grow_move points_def
        split: if_splits option.splits)
  with f show ?thesis by simp
qed

lemma filter_either:
  "int (length (filter (\<lambda>e. fst e \<or> snd e) xs)) =
     int (length (filter fst xs)) + int (length (filter snd xs))
       - int (length (filter (\<lambda>e. fst e \<and> snd e) xs))"
  by (induction xs) auto

lemma filter_both_le:
  "length (filter (\<lambda>e. fst e \<and> snd e) xs) \<le> length (filter snd xs)"
  by (induction xs) auto

lemma run_account:
  "run inps g = Running g' \<or> run inps g = Ended g' \<Longrightarrow>
     game.score g' = game.score g + 10 * foods_eaten inps g + 20 * specials_eaten inps g \<and>
     segments g' = segments g + eating_iterations inps g"
proof (induction inps arbitrary: g)
  case Nil
  then show ?case
    by (simp add: foods_eaten_def specials_eaten_def eating_iterations_def)
next
  case (Cons inp inps)
  show ?case
  proof (cases "tick inp g")
    case (Running g1)
    with Cons.prems have r: "run inps g1 = Running g' \<or> run inps g1 = Ended g'" by simp
    from Running have "tick inp g = Running g1 \<or> tick inp g = Ended g1" by simp
    from tick_account [OF this] Cons.IH [OF r] Running show ?thesis
      by (simp add: foods_eaten_def specials_eaten_def eating_iterations_def)
  next
    case (Ended g1)
    with Cons.prems have "g1 = g'" by simp
    with Ended have "tick inp g = Running g' \<or> tick inp g = Ended g'" by simp
    from tick_account [OF this] Ended show ?thesis
      by (simp add: foods_eaten_def specials_eaten_def eating_iterations_def)
  qed (use Cons.prems in simp_all)
qed

lemma init_account:
  "run_game_init speed now draws = Init g \<Longrightarrow>
     game.score g = 0 \<and> segments g = 0 \<and> fps_of_speed speed = Some (current_fps g)"
  by (auto simp: run_game_init_def segments_def Snake_init_def split: option.splits)

lemmas geometry_defs = WIDTH_def HEIGHT_def GRID_SIZE_def randrange_def mk_rect_def
  colliderect_def forbidden_pause_def forbidden_score_def

lemmas tick_defs = tick_def spawn_special_food_def after_pause_def eat_food_def eat_special_def
  update_special_def out_of_bounds_def

lemmas log_defs = foods_eaten_def specials_eaten_def both_eaten_def eating_iterations_def
  eats_food_def eats_special_def at_collision_tests_def

lemma example_game_init: "run_game_init (1 / 8) 0 [(21, 15)] = Init example_game"
  by (simp add: run_game_init_def fps_eighth example_game_def geometry_defs)

lemma example_game_tick: "tick quiet_tick example_game = Running after_first_food"
  by (simp add: tick_defs example_game_def quiet_tick_def after_first_food_def Snake_init_def
      move_defs Let_def geometry_defs)

lemma special_game_init: "run_game_init (1 / 8) 0 [(0, 5)] = Init special_game"
  by (simp add: run_game_init_def fps_eighth special_game_def geometry_defs)

lemma special_game_tick: "tick special_tick special_game = Running after_special_food"
  by (simp add: tick_defs special_game_def special_tick_def after_special_food_def
      Snake_init_def move_defs Let_def geometry_defs SpecialFood_init_def get_rect_def
      choice_def velocities_def points_def)

lemma special_game_later: "tick later_tick after_special_food = Running after_special_growth"
  by (simp add: tick_defs later_tick_def after_special_food_def after_special_growth_def
      move_defs Let_def geometry_defs)

lemma example_game_log: "eating_log [quiet_tick] example_game = [(True, False)]"
  by (simp add: example_game_tick)
    (simp add: log_defs spawn_special_food_def example_game_def quiet_tick_def Snake_init_def
      move_defs Let_def geometry_defs)

lemma special_game_log:
  "eating_log [special_tick, later_tick] special_game = [(False, True), (False, False)]"
  apply (simp add: special_game_tick special_game_later)
  apply (intro conjI)
     apply (simp add: log_defs spawn_special_food_def special_game_def special_tick_def
      Snake_init_def move_defs Let_def geometry_defs SpecialFood_init_def get_rect_def
      choice_def velocities_def)
    apply (simp add: log_defs spawn_special_food_def special_game_def special_tick_def
      Snake_init_def move_defs Let_def geometry_defs SpecialFood_init_def get_rect_def
      choice_def velocities_def)
   apply (simp add: log_defs spawn_special_food_def later_tick_def after_special_food_def
      move_defs Let_def geometry_defs)
  apply (simp add: log_defs spawn_special_food_def later_tick_def after_special_food_def
      move_defs Let_def geometry_defs)
  done

text \<open>
  Claim C1, as stated: in every state of a running session ten times the length of the
  body is the score. It fails in two ways. In the state right after the first food is
  eaten the score is 10 and the body is still empty, the new segment being added by the
  next call of \<^verbatim>\<open>move\<close>. And a special food is worth 20 points for one segment: in the
  second session the special food has been eaten and the segment has been added, the
  body has one cell and the score is 20.
\<close>

theorem body_length_counterexample:
  "run_game_init (1 / 8) 0 [(21, 15)] = Init example_game \<and>
   run [quiet_tick] example_game = Running after_first_food \<and>
   10 * int (length (body (snake after_first_food))) \<noteq> game.score after_first_food \<and>
   run_game_init (1 / 8) 0 [(0, 5)] = Init special_game \<and>
   run [special_tick, later_tick] special_game = Running after_special_growth \<and>
   \<not> grow (snake after_special_growth) \<and>
   10 * int (length (body (snake after_special_growth))) \<noteq> game.score after_special_growth"
  by (simp add: example_game_init example_game_tick special_game_init special_game_tick
      special_game_later)
    (simp add: after_first_food_def after_special_growth_def)

text \<open>
  Claim C1, amended. In every state of a session, after any number of iterations and also
  when the game has just ended, the score is 10 for each food eaten and 20 for each
  special food eaten, and the number of segments, which is the length of the body plus
  one while \<^verbatim>\<open>grow\<close> is set, is the number of iterations that have eaten. So ten
  times the segments is the score as long as no special food has been eaten, and ten
  times the segments plus 10 for each special food is the score as long as no iteration
  has eaten both foods together (such an iteration adds 30 points and one segment).
\<close>

theorem body_length_score:
  assumes "run_game_init speed now draws = Init g0"
    and "run inps g0 = Running g \<or> run inps g0 = Ended g"
  shows "segments g = int (length (body (snake g))) + (if grow (snake g) then 1 else 0) \<and>
         game.score g = 10 * foods_eaten inps g0 + 20 * specials_eaten inps g0 \<and>
         segments g = eating_iterations inps g0 \<and>
         segments g = foods_eaten inps g0 + specials_eaten inps g0 - both_eaten inps g0 \<and>
         (specials_eaten inps g0 = 0 \<longrightarrow> 10 * segments g = game.score g) \<and>
         (both_eaten inps g0 = 0 \<longrightarrow>
            10 * segments g + 10 * specials_eaten inps g0 = game.score g)"
proof -
  from init_account [OF assms(1)] run_account [OF assms(2)]
  have a: "game.score g = 10 * foods_eaten inps g0 + 20 * specials_eaten inps g0"
    and b: "segments g = eating_iterations inps g0"
    by simp_all
  have c: "eating_iterations inps g0 =
      foods_eaten inps g0 + specials_eaten inps g0 - both_eaten inps g0"
    unfolding eating_iterations_def foods_eaten_def specials_eaten_def both_eaten_def
    by (rule filter_either)
  have d: "both_eaten inps g0 \<le> specials_eaten inps g0"
    using filter_both_le [of "eating_log inps g0"]
    by (simp add: both_eaten_def specials_eaten_def)
  have e: "0 \<le> both_eaten inps g0" by (simp add: both_eaten_def)
  from a b c d e show ?thesis by (simp add: segments_def)
qed

theorem body_length_score_witness:
  "run_game_init (1 / 8) 0 [(21, 15)] = Init example_game \<and>
   run [quiet_tick] example_game = Running after_first_food \<and>
   specials_eaten [quiet_tick] example_game = 0 \<and>
   both_eaten [quiet_tick] example_game = 0 \<and>
   segments after_first_food = 1 \<and> game.score after_first_food = 10 \<and>
   run_game_init (1 / 8) 0 [(0, 5)] = Init special_game \<and>
   run [special_tick, later_tick] special_game = Running after_special_growth \<and>
   specials_eaten [special_tick, later_tick] special_game = 1 \<and>
   both_eaten [special_tick, later_tick] special_game = 0 \<and>
   segments after_special_growth = 1 \<and> game.score after_special_growth = 20"
proof -
  have 1: "run [quiet_tick] example_game = Running after_first_food"
    by (simp add: example_game_tick)
  have 2: "run [special_tick, later_tick] special_game = Running after_special_growth"
    by (simp add: special_game_tick special_game_later)
  have 3: "specials_eaten [quiet_tick] example_game = 0"
    "both_eaten [quiet_tick] example_game = 0"
    unfolding specials_eaten_def both_eaten_def example_game_log by simp_all
  have 4: "specials_eaten [special_tick, later_tick] special_game = 1"
    "both_eaten [special_tick, later_tick] special_game = 0"
    unfolding specials_eaten_def both_eaten_def special_game_log by simp_all
  have 5: "game.score after_first_food = 10" "game.score after_special_growth = 20"
    by (simp_all add: after_first_food_def after_special_growth_def)
  from body_length_score [OF example_game_init disjI1 [OF 1]]
    body_length_score [OF special_game_init disjI1 [OF 2]]
    example_game_init special_game_init 1 2 3 4 5
  show ?thesis by simp
qed

text \<open>
  Claim C8, as stated: the tick rate of a session equals \<open>10 + speed * 20\<close>. The code
  takes the integer part, \<^verbatim>\<open>int(10 + game_speed * 20)\<close>: at the speed 1/8 (a float, as
  are 2.5 and 12.5, so that no operation rounds) the tick rate is 12 and not 12.5.
\<close>

theorem fps_counterexample:
  "(0::real) \<le> 1 / 8 \<and> (1 / 8 :: real) \<le> 1 \<and>
   float_mul (1 / 8) 20 = Some (5 / 2) \<and> float_add 10 (5 / 2) = Some (25 / 2) \<and>
   run_game_init (1 / 8) 0 [(21, 15)] = Init example_game \<and>
   current_fps example_game = 12 \<and>
   real_of_int (current_fps example_game) \<noteq> 10 + (1 / 8) * 20"
proof -
  have "float_mul (1 / 8) 20 = Some (5 / 2)" "float_add 10 (5 / 2) = Some (25 / 2)"
    by (simp_all add: float_defs Let_def)
  moreover have "current_fps example_game = 12" by (simp add: example_game_def)
  ultimately show ?thesis by (simp add: example_game_init)
qed

text \<open>
  Claim C8, amended. For a speed in [0, 1] the computation of the tick rate at the start
  of the session does not raise, and the tick rate is \<^verbatim>\<open>int(10 + game_speed * 20)\<close>
  in float arithmetic: a whole number from 10 to 30, which is the whole part of
  \<open>10 + speed * 20\<close>, or one more where the float operations round the sum up to the next
  whole number (the exact sum is then less than \<open>1 / 2 ^ 48\<close> below it); it equals
  \<open>10 + speed * 20\<close> when that is a whole number. The tick rate has this value in every
  later state of the session: no iteration of the loop changes it.
\<close>

theorem fps_fixed:
  assumes "0 \<le> speed" and "speed \<le> 1"
  shows "run_game_init speed now draws \<noteq> Init_OverflowError \<and>
         (\<forall>g0 g. run_game_init speed now draws = Init g0 \<and>
                 (run inps g0 = Running g \<or> run inps g0 = Ended g) \<longrightarrow>
            fps_of_speed speed = Some (current_fps g0) \<and>
            current_fps g = current_fps g0 \<and>
            10 \<le> current_fps g \<and> current_fps g \<le> 30 \<and>
            (current_fps g = \<lfloor>10 + speed * 20\<rfloor> \<or>
             current_fps g = \<lfloor>10 + speed * 20\<rfloor> + 1 \<and>
             real_of_int \<lfloor>10 + speed * 20\<rfloor> + 1 - 1 / 2 ^ 48 \<le> 10 + speed * 20) \<and>
            (10 + speed * 20 \<in> \<int> \<longrightarrow> real_of_int (current_fps g) = 10 + speed * 20))"
proof -
  from fps_of_speed_bounds [OF assms] obtain fps where fps: "fps_of_speed speed = Some fps"
    "10 \<le> fps" "fps \<le> 30" "\<lfloor>10 + speed * 20\<rfloor> \<le> fps"
    "real_of_int fps \<le> 10 + speed * 20 + 1 / 2 ^ 48"
    by blast
  define t where "t = 10 + speed * 20"
  have t1: "real_of_int \<lfloor>t\<rfloor> \<le> t" and t2: "t < real_of_int \<lfloor>t\<rfloor> + 1" by linarith+
  have small: "(1::real) / 2 ^ 48 < 1" by simp
  from fps(4,5) have lo: "\<lfloor>t\<rfloor> \<le> fps" and hi: "real_of_int fps \<le> t + 1 / 2 ^ 48"
    by (simp_all add: t_def)
  from hi t2 small have "real_of_int fps < real_of_int (\<lfloor>t\<rfloor> + 2)" by linarith
  then have "fps < \<lfloor>t\<rfloor> + 2" by (simp only: of_int_less_iff)
  with lo have cases: "fps = \<lfloor>t\<rfloor> \<or> fps = \<lfloor>t\<rfloor> + 1" by linarith
  have up: "fps = \<lfloor>t\<rfloor> + 1 \<Longrightarrow> real_of_int \<lfloor>t\<rfloor> + 1 - 1 / 2 ^ 48 \<le> t"
    using hi by linarith
  have whole: "real_of_int fps = t" if "t \<in> \<int>"
  proof -
    from that have "real_of_int \<lfloor>t\<rfloor> = t" by (rule of_int_floor)
    with hi small have "real_of_int fps < real_of_int (\<lfloor>t\<rfloor> + 1)" by linarith
    then have "fps < \<lfloor>t\<rfloor> + 1" by (simp only: of_int_less_iff)
    with cases have "fps = \<lfloor>t\<rfloor>" by simp
    with \<open>real_of_int \<lfloor>t\<rfloor> = t\<close> show ?thesis by simp
  qed
  have no: "run_game_init speed now draws \<noteq> Init_OverflowError"
    using fps(1) by (simp add: run_game_init_def split: option.splits)
  have "fps_of_speed speed = Some (current_fps g0) \<and>
        current_fps g = current_fps g0 \<and>
        10 \<le> current_fps g \<and> current_fps g \<le> 30 \<and>
        (current_fps g = \<lfloor>t\<rfloor> \<or>
         current_fps g = \<lfloor>t\<rfloor> + 1 \<and> real_of_int \<lfloor>t\<rfloor> + 1 - 1 / 2 ^ 48 \<le> t) \<and>
        (t \<in> \<int> \<longrightarrow> real_of_int (current_fps g) = t)"
    if i: "run_game_init speed now draws = Init g0"
      and r: "run inps g0 = Running g \<or> run inps g0 = Ended g" for g0 g
  proof -
    from init_account [OF i] fps(1) have 0: "current_fps g0 = fps" by simp
    from r have 1: "current_fps g = current_fps g0" by (rule run_fps)
    from 0 1 fps cases up whole show ?thesis by auto
  qed
  with no show ?thesis unfolding t_def by blast
qed

theorem fps_fixed_witness:
  "(0::real) \<le> float_0_15 \<and> float_0_15 \<le> 1 \<and>
   run_game_init float_0_15 0 [(21, 15)] = Init (example_game\<lparr>current_fps := 13\<rparr>) \<and>
   run [quiet_tick] (example_game\<lparr>current_fps := 13\<rparr>)
     = Running (after_first_food\<lparr>current_fps := 13\<rparr>) \<and>
   current_fps (after_first_food\<lparr>current_fps := 13\<rparr>) = 13 \<and>
   \<lfloor>10 + float_0_15 * 20\<rfloor> = 12"
proof -
  have a: "(0::real) \<le> float_0_15" and b: "float_0_15 \<le> 1"
    by (simp_all add: float_0_15_def)
  have i: "run_game_init float_0_15 0 [(21, 15)] = Init (example_game\<lparr>current_fps := 13\<rparr>)"
    by (simp add: run_game_init_def fps_0_15 example_game_def geometry_defs)
  have r: "run [quiet_tick] (example_game\<lparr>current_fps := 13\<rparr>)
      = Running (after_first_food\<lparr>current_fps := 13\<rparr>)"
    by (simp add: tick_defs example_game_def quiet_tick_def after_first_food_def Snake_init_def
        move_defs Let_def geometry_defs)
  have f: "\<lfloor>10 + float_0_15 * 20\<rfloor> = 12"
    by (simp add: float_0_15_def floor_eq_iff)
  from fps_fixed [OF a b, of 0 "[(21, 15)]" "[quiet_tick]"] a b i r f
  show ?thesis by simp
qed

text \<open>
  Claim C9. While the game is not paused, each arrow key writes its direction into
  \<^verbatim>\<open>new_direction\<close>, whatever the current and the buffered direction are; the reversal
  is only looked at by \<^verbatim>\<open>move\<close>. A snake going RIGHT that gets UP and then LEFT
  before the next move has LEFT in the buffer, \<^verbatim>\<open>move\<close> does not commit it, and the
  snake goes on to the RIGHT: the UP is lost.
\<close>

theorem direction_buffer_single_slot:
  "(\<not> is_paused g \<longrightarrow>
      handle_event (KEYDOWN K_RIGHT) g = Some (g\<lparr>snake := (snake g)\<lparr>new_direction := RIGHT\<rparr>\<rparr>) \<and>
      handle_event (KEYDOWN K_LEFT) g = Some (g\<lparr>snake := (snake g)\<lparr>new_direction := LEFT\<rparr>\<rparr>) \<and>
      handle_event (KEYDOWN K_UP) g = Some (g\<lparr>snake := (snake g)\<lparr>new_direction := UP\<rparr>\<rparr>) \<and>
      handle_event (KEYDOWN K_DOWN) g = Some (g\<lparr>snake := (snake g)\<lparr>new_direction := DOWN\<rparr>\<rparr>)) \<and>
   (\<not> is_paused g \<and> direction (snake g) = RIGHT \<longrightarrow>
      (\<exists>g'. handle_events [KEYDOWN K_UP, KEYDOWN K_LEFT] g = Some g' \<and>
            new_direction (snake g') = LEFT \<and>
            direction (snake g') = RIGHT \<and>
            direction (move (snake g')) = RIGHT \<and>
            head (move (snake g')) = (fst (head (snake g)) + GRID_SIZE, snd (head (snake g)))))"
  by (simp add: Let_def direction_move head_move)

theorem direction_buffer_single_slot_witness:
  "\<not> is_paused example_game \<and> direction (snake example_game) = RIGHT \<and>
   (\<exists>g'. handle_events [KEYDOWN K_UP, KEYDOWN K_LEFT] example_game = Some g' \<and>
         new_direction (snake g') = LEFT \<and> direction (move (snake g')) = RIGHT \<and>
         head (move (snake g')) = (420, 300))"
  using direction_buffer_single_slot [of example_game]
  by (simp add: example_game_def Snake_init_def WIDTH_def HEIGHT_def GRID_SIZE_def)

section \<open>Properties of the food\<close>

lemma randrange_width:
  "randrange 0 WIDTH GRID_SIZE r mod GRID_SIZE = 0 \<and> 0 \<le> randrange 0 WIDTH GRID_SIZE r \<and>
   randrange 0 WIDTH GRID_SIZE r < WIDTH"
proof -
  have "0 \<le> int r mod 40" and "int r mod 40 < 40" by simp_all
  then show ?thesis by (simp add: randrange_def WIDTH_def GRID_SIZE_def)
qed

lemma randrange_height:
  "randrange 0 HEIGHT GRID_SIZE r mod GRID_SIZE = 0 \<and> 0 \<le> randrange 0 HEIGHT GRID_SIZE r \<and>
   randrange 0 HEIGHT GRID_SIZE r < HEIGHT"
proof -
  have "0 \<le> int r mod 30" and "int r mod 30 < 30" by simp_all
  then show ?thesis by (simp add: randrange_def HEIGHT_def GRID_SIZE_def)
qed

lemma food_spawn_Some:
  "food_spawn draws = Some p \<Longrightarrow> on_grid p \<and> food_allowed p"
proof (induction draws rule: food_spawn.induct)
  case 1
  then show ?case by simp
next
  case (2 r1 r2 rs)
  show ?case
  proof (cases "food_allowed (randrange 0 WIDTH GRID_SIZE r1, randrange 0 HEIGHT GRID_SIZE r2)")
    case True
    with "2.prems" have "p = (randrange 0 WIDTH GRID_SIZE r1, randrange 0 HEIGHT GRID_SIZE r2)"
      by (auto simp: food_allowed_def Let_def)
    with True randrange_width [of r1] randrange_height [of r2] show ?thesis
      by (simp add: on_grid_def)
  next
    case False
    with "2.prems" have "food_spawn rs = Some p"
      by (auto simp: food_allowed_def Let_def split: if_splits)
    with False "2.IH" show ?thesis by (auto simp: food_allowed_def Let_def)
  qed
qed

lemma food_spawn_first:
  "food_allowed (randrange 0 WIDTH GRID_SIZE r1, randrange 0 HEIGHT GRID_SIZE r2) \<Longrightarrow>
   food_spawn ((r1, r2) # rs) =
     Some (randrange 0 WIDTH GRID_SIZE r1, randrange 0 HEIGHT GRID_SIZE r2)"
  by (simp add: food_allowed_def Let_def)

text \<open>The loop of \<^verbatim>\<open>Food.spawn\<close> returns as soon as one draw is an allowed cell.\<close>

lemma food_spawn_returns:
  "\<exists>d \<in> set draws. food_allowed (randrange 0 WIDTH GRID_SIZE (fst d), randrange 0 HEIGHT GRID_SIZE (snd d))
   \<Longrightarrow> \<exists>p. food_spawn draws = Some p"
proof (induction draws rule: food_spawn.induct)
  case 1
  then show ?case by simp
next
  case (2 r1 r2 rs)
  show ?case
  proof (cases "food_allowed (randrange 0 WIDTH GRID_SIZE r1, randrange 0 HEIGHT GRID_SIZE r2)")
    case True
    then show ?thesis using food_spawn_first [of r1 r2 rs] by blast
  next
    case False
    with "2.prems" have "\<exists>d \<in> set rs.
        food_allowed (randrange 0 WIDTH GRID_SIZE (fst d), randrange 0 HEIGHT GRID_SIZE (snd d))"
      by auto
    moreover from False have "food_spawn ((r1, r2) # rs) = food_spawn rs"
      by (auto simp: food_allowed_def Let_def)
    ultimately show ?thesis using False "2.IH" by (auto simp: food_allowed_def Let_def)
  qed
qed

lemma randrange_cell_x:
  assumes "x mod GRID_SIZE = 0" and "0 \<le> x" and "x < WIDTH"
  shows "randrange 0 WIDTH GRID_SIZE (nat (x div GRID_SIZE)) = x"
proof -
  from assms have "0 \<le> x div 20" "x div 20 < 40" "20 * (x div 20) = x"
    by (simp_all add: WIDTH_def GRID_SIZE_def) presburger+
  then show ?thesis by (simp add: randrange_def WIDTH_def GRID_SIZE_def)
qed

lemma randrange_cell_y:
  assumes "y mod GRID_SIZE = 0" and "0 \<le> y" and "y < HEIGHT"
  shows "randrange 0 HEIGHT GRID_SIZE (nat (y div GRID_SIZE)) = y"
proof -
  from assms have "0 \<le> y div 20" "y div 20 < 30" "20 * (y div 20) = y"
    by (simp_all add: HEIGHT_def GRID_SIZE_def) presburger+
  then show ?thesis by (simp add: randrange_def HEIGHT_def GRID_SIZE_def)
qed

text \<open>Every allowed cell of the grid is the result of \<^verbatim>\<open>Food.spawn\<close> for some draw.\<close>

lemma food_spawn_cell:
  assumes "on_grid c" and "food_allowed c"
  shows "food_spawn [(nat (fst c div GRID_SIZE), nat (snd c div GRID_SIZE))] = Some c"
proof -
  from assms(1) have "randrange 0 WIDTH GRID_SIZE (nat (fst c div GRID_SIZE)) = fst c"
    and "randrange 0 HEIGHT GRID_SIZE (nat (snd c div GRID_SIZE)) = snd c"
    by (simp_all add: on_grid_def randrange_cell_x randrange_cell_y)
  with assms(2) food_spawn_first [of "nat (fst c div GRID_SIZE)" "nat (snd c div GRID_SIZE)" "[]"]
  show ?thesis by simp
qed

lemma eat_food_respawn:
  "head (snake g) = food g \<Longrightarrow> food_spawn (food_draws inp) = Some c \<Longrightarrow>
   eat_food inp g =
     Some (g\<lparr>snake := (snake g)\<lparr>grow := True\<rparr>, food := c, game.score := game.score g + 10\<rparr>)"
  by (simp add: eat_food_def)

lemma food_ahead_tick: "tick tick_food_ahead example_game = Running after_food_ahead"
  by (simp add: tick_defs example_game_def tick_food_ahead_def after_food_ahead_def
      Snake_init_def move_defs Let_def geometry_defs)

lemma food_behind_tick: "tick tick_food_behind after_food_ahead = Running after_food_behind"
  by (simp add: tick_defs tick_food_behind_def after_food_ahead_def after_food_behind_def
      move_defs Let_def geometry_defs)

text \<open>
  Claim C10. \<^verbatim>\<open>Food.spawn\<close> looks at the two forbidden rectangles only: the first
  drawn cell that meets neither of them is taken, and the snake is not an argument of the
  test. Whatever is spawned lies on the grid inside the screen and off both rectangles.
  So the food can be respawned on the snake: whenever the snake eats, every cell of the
  snake that lies on the grid and off both rectangles is the new position of the food for
  some draw. In the example session the snake eats a food at (420, 300), the next food
  is drawn at (440, 300), the snake eats that one too, and the food after it is drawn at
  (420, 300), the cell of the body.
\<close>

theorem food_spawn_ignores_snake:
  "(food_spawn draws = Some p \<longrightarrow> on_grid p \<and> food_allowed p) \<and>
   (food_allowed (randrange 0 WIDTH GRID_SIZE r1, randrange 0 HEIGHT GRID_SIZE r2) \<longrightarrow>
      food_spawn ((r1, r2) # rs) =
        Some (randrange 0 WIDTH GRID_SIZE r1, randrange 0 HEIGHT GRID_SIZE r2)) \<and>
   (\<not> food_allowed (randrange 0 WIDTH GRID_SIZE r1, randrange 0 HEIGHT GRID_SIZE r2) \<longrightarrow>
      food_spawn ((r1, r2) # rs) = food_spawn rs) \<and>
   (head (snake g) = food g \<and> c \<in> set (head (snake g) # body (snake g)) \<and>
    on_grid c \<and> food_allowed c \<longrightarrow>
      (\<exists>d1 d2. food_spawn [(d1, d2)] = Some c \<and>
         eat_food (inp\<lparr>food_draws := [(d1, d2)]\<rparr>) g =
           Some (g\<lparr>snake := (snake g)\<lparr>grow := True\<rparr>, food := c,
                   game.score := game.score g + 10\<rparr>))) \<and>
   run_game_init (1 / 8) 0 [(21, 15)] = Init example_game \<and>
   run [tick_food_ahead] example_game = Running after_food_ahead \<and>
   food after_food_ahead = (440, 300) \<and>
   run [tick_food_ahead, tick_food_behind] example_game = Running after_food_behind \<and>
   food after_food_behind = (420, 300) \<and>
   body (snake after_food_behind) = [(420, 300)] \<and>
   food after_food_behind \<in> set (body (snake after_food_behind))"
proof -
  have 1: "food_spawn draws = Some p \<longrightarrow> on_grid p \<and> food_allowed p"
    using food_spawn_Some [of draws p] by blast
  have 2: "food_allowed (randrange 0 WIDTH GRID_SIZE r1, randrange 0 HEIGHT GRID_SIZE r2) \<longrightarrow>
      food_spawn ((r1, r2) # rs) =
        Some (randrange 0 WIDTH GRID_SIZE r1, randrange 0 HEIGHT GRID_SIZE r2)"
    using food_spawn_first [of r1 r2 rs] by blast
  have 3: "\<not> food_allowed (randrange 0 WIDTH GRID_SIZE r1, randrange 0 HEIGHT GRID_SIZE r2) \<longrightarrow>
      food_spawn ((r1, r2) # rs) = food_spawn rs"
    by (auto simp: food_allowed_def Let_def)
  have 4: "\<exists>d1 d2. food_spawn [(d1, d2)] = Some c \<and>
         eat_food (inp\<lparr>food_draws := [(d1, d2)]\<rparr>) g =
           Some (g\<lparr>snake := (snake g)\<lparr>grow := True\<rparr>, food := c,
                   game.score := game.score g + 10\<rparr>)"
    if "head (snake g) = food g" and "on_grid c" and "food_allowed c"
  proof -
    define d1 d2 where "d1 = nat (fst c div GRID_SIZE)" and "d2 = nat (snd c div GRID_SIZE)"
    from that(2,3) have s: "food_spawn [(d1, d2)] = Some c"
      unfolding d1_def d2_def by (rule food_spawn_cell)
    then have "food_spawn (food_draws (inp\<lparr>food_draws := [(d1, d2)]\<rparr>)) = Some c" by simp
    with that(1) have "eat_food (inp\<lparr>food_draws := [(d1, d2)]\<rparr>) g =
        Some (g\<lparr>snake := (snake g)\<lparr>grow := True\<rparr>, food := c, game.score := game.score g + 10\<rparr>)"
      by (rule eat_food_respawn)
    with s show ?thesis by blast
  qed
  have 5: "run [tick_food_ahead] example_game = Running after_food_ahead"
    "run [tick_food_ahead, tick_food_behind] example_game = Running after_food_behind"
    by (simp_all add: food_ahead_tick food_behind_tick)
  have 6: "food after_food_ahead = (440, 300)" "food after_food_behind = (420, 300)"
    "body (snake after_food_behind) = [(420, 300)]"
    by (simp_all add: after_food_ahead_def after_food_behind_def)
  from 1 2 3 4 5 6 example_game_init show ?thesis by simp
qed

theorem food_spawn_ignores_snake_witness:
  "food_spawn [(0, 0), (21, 15)] = Some (420, 300) \<and>
   \<not> food_allowed (randrange 0 WIDTH GRID_SIZE 0, randrange 0 HEIGHT GRID_SIZE 0) \<and>
   food_allowed (randrange 0 WIDTH GRID_SIZE 21, randrange 0 HEIGHT GRID_SIZE 15) \<and>
   on_grid (420, 300) \<and> food_allowed (420, 300) \<and>
   head (snake at_second_food) = food at_second_food \<and>
   (420, 300) \<in> set (head (snake at_second_food) # body (snake at_second_food)) \<and>
   (\<exists>d1 d2. food_spawn [(d1, d2)] = Some (420, 300) \<and>
      eat_food (tick_food_behind\<lparr>food_draws := [(d1, d2)]\<rparr>) at_second_food =
        Some (at_second_food\<lparr>snake := (snake at_second_food)\<lparr>grow := True\<rparr>,
                food := (420, 300), game.score := game.score at_second_food + 10\<rparr>))"
proof -
  have 1: "food_spawn [(0, 0), (21, 15)] = Some (420, 300)"
    by (simp add: geometry_defs)
  have 2: "\<not> food_allowed (randrange 0 WIDTH GRID_SIZE 0, randrange 0 HEIGHT GRID_SIZE 0)"
    "food_allowed (randrange 0 WIDTH GRID_SIZE 21, randrange 0 HEIGHT GRID_SIZE 15)"
    by (simp_all add: food_allowed_def geometry_defs)
  have 3: "head (snake at_second_food) = food at_second_food"
    "(420, 300) \<in> set (head (snake at_second_food) # body (snake at_second_food))"
    by (simp_all add: at_second_food_def)
  from food_spawn_ignores_snake [of "[(0, 0), (21, 15)]" "(420, 300)" 21 15 "[]"
      at_second_food "(420, 300)" tick_food_behind] 1 2 3
  show ?thesis by simp
qed

section \<open>Properties of the persistence\<close>

text \<open>
  Claim C7. A missing leaderboard file gives the empty leaderboard, and a missing or
  unparseable settings file leaves the default settings; but \<^verbatim>\<open>Leaderboard.load\<close> on
  an unparseable file raises: its \<^verbatim>\<open>except\<close> clause names
  \<^verbatim>\<open>FileNotFoundError\<close> only, where \<^verbatim>\<open>load_settings\<close> catches every exception.
\<close>

theorem persistence_read_failures:
  "Leaderboard_load Unparseable = Inl JSONDecodeError \<and>
   Leaderboard_load Missing = Inr [] \<and>
   load_settings Missing cur = Inr module_defaults \<and>
   load_settings Unparseable module_defaults = Inr module_defaults"
  by (simp add: Leaderboard_load_def load_settings_def json_load_def module_defaults_def)

section \<open>Properties of the leaderboard\<close>



lemma add_score_new:
  "find (same_user u) scores = None \<Longrightarrow>
   add_score u sc now scores =
     take 10 (sort_key (\<lambda>e. - score e) (scores @ [\<lparr>username = u, score = sc, date = now\<rparr>]))"
  by (simp add: add_score_def)



lemma add_score_length: "length (add_score u sc now scores) \<le> 10"
  by (simp add: add_score_def Let_def)

lemma add_score_sorted: "sorted_wrt (\<lambda>a b. score b \<le> score a) (add_score u sc now scores)"
proof -
  have "sorted (map (\<lambda>e. - score e) (take 10 (sort_key (\<lambda>e. - score e) xs)))" for xs :: "entry list"
    by (simp add: take_map [symmetric] sorted_wrt_take del: take_map)
  then have "sorted_wrt (\<lambda>a b. score b \<le> score a) (take 10 (sort_key (\<lambda>e. - score e) xs))"
    for xs :: "entry list"
    by (simp add: sorted_map)
  then show ?thesis by (simp add: add_score_def Let_def)
qed


lemma insort_key_front: "\<forall>x \<in> set xs. f a \<le> f x \<Longrightarrow> insort_key f a xs = a # xs"
  by (cases xs) auto

lemma set_behind: "set (behind f n xs) = insert n (set xs)"
  by (induction xs) auto

lemma sort_key_behind:
  "sorted (map f xs) \<Longrightarrow> sort_key f (xs @ [n]) = behind f n xs"
proof (induction xs)
  case Nil
  then show ?case by simp
next
  case (Cons a xs)
  then have le: "\<forall>x \<in> set xs. f a \<le> f x" and s: "sorted (map f xs)" by auto
  from Cons.IH [OF s] have eq: "sort_key f ((a # xs) @ [n]) = insort_key f a (behind f n xs)"
    by simp
  show ?case
  proof (cases "f a \<le> f n")
    case True
    with le have "\<forall>x \<in> set (behind f n xs). f a \<le> f x" by (simp add: set_behind)
    then have "insort_key f a (behind f n xs) = a # behind f n xs" by (rule insort_key_front)
    with eq True show ?thesis by simp
  next
    case False
    with le have "\<forall>x \<in> set xs. \<not> f x \<le> f n" by auto
    then have "behind f n xs = n # xs" by (cases xs) auto
    with eq False le show ?thesis by (simp add: insort_key_front)
  qed
qed

lemma take_behind: "take k (behind f n (take k xs)) = take k (behind f n xs)"
proof (induction xs arbitrary: k)
  case Nil
  then show ?case by simp
next
  case (Cons a xs)
  show ?case
  proof (cases k)
    case 0
    then show ?thesis by simp
  next
    case (Suc j)
    show ?thesis
    proof (cases "f a \<le> f n")
      case True
      with Suc Cons.IH [of j] show ?thesis by simp
    next
      case False
      with Suc show ?thesis by (cases j) (simp_all add: min_def)
    qed
  qed
qed

lemma sort_key_twice:
  "sort_key f (sort_key f xs @ [n]) = sort_key f (xs @ [n])"
proof (rule properties_for_sort_key [symmetric])
  show "mset (sort_key f (sort_key f xs @ [n])) = mset (xs @ [n])" by simp
  show "sorted (map f (sort_key f (sort_key f xs @ [n])))" by simp
  fix k
  have "filter (\<lambda>x. f k = f x) (sort_key f (sort_key f xs @ [n]))
      = filter (\<lambda>x. f x = f k) (sort_key f (sort_key f xs @ [n]))"
    by (rule filter_cong) auto
  also have "\<dots> = filter (\<lambda>x. f x = f k) (sort_key f xs @ [n])" by (rule sort_key_stable)
  also have "\<dots> = filter (\<lambda>x. f x = f k) (sort_key f xs) @ filter (\<lambda>x. f x = f k) [n]" by simp
  also have "\<dots> = filter (\<lambda>x. f x = f k) xs @ filter (\<lambda>x. f x = f k) [n]"
    by (simp only: sort_key_stable)
  also have "\<dots> = filter (\<lambda>x. f k = f x) (xs @ [n])" by (auto intro: filter_cong)
  finally show "filter (\<lambda>x. f k = f x) (sort_key f (sort_key f xs @ [n]))
      = filter (\<lambda>x. f k = f x) (xs @ [n])" .
qed

text \<open>Cutting a sorted list before a record is sorted in does not change what the cut
  of the result is.\<close>

lemma take_sort_key_take:
  fixes f :: "'a \<Rightarrow> int"
  shows "take k (sort_key f (take k (sort_key f xs) @ [n])) = take k (sort_key f (xs @ [n]))"
proof -
  have s: "sorted (map f (sort_key f xs))" by simp
  then have "sorted (map f (take k (sort_key f xs)))"
    by (simp add: take_map [symmetric] sorted_wrt_take del: take_map)
  then have "take k (sort_key f (take k (sort_key f xs) @ [n]))
      = take k (behind f n (take k (sort_key f xs)))"
    by (simp only: sort_key_behind)
  also have "\<dots> = take k (behind f n (sort_key f xs))" by (rule take_behind)
  also have "\<dots> = take k (sort_key f (sort_key f xs @ [n]))"
    using s by (simp only: sort_key_behind)
  also have "\<dots> = take k (sort_key f (xs @ [n]))" by (simp only: sort_key_twice)
  finally show ?thesis .
qed

lemma find_same_user_None:
  "find (same_user u) scores = None \<longleftrightarrow> lower u \<notin> set (map (\<lambda>s. lower (username s)) scores)"
  by (force simp: find_None_iff same_user_def)

lemma add_scores_board:
  assumes "distinct (map (\<lambda>c. lower (fst c)) calls)"
    and "\<forall>c \<in> set calls. lower (fst c) \<notin> set (map (\<lambda>s. lower (username s)) xs)"
  shows "add_scores calls (take 10 (sort_key (\<lambda>e. - score e) xs))
       = take 10 (sort_key (\<lambda>e. - score e) (xs @ map new_entry calls))"
  using assms
proof (induction calls arbitrary: xs)
  case Nil
  then show ?case by simp
next
  case (Cons c calls)
  obtain u sc now where c: "c = (u, sc, now)" by (cases c)
  let ?f = "\<lambda>e. - score e"
  let ?n = "\<lparr>username = u, score = sc, date = now\<rparr>"
  from Cons.prems(2) c have "lower u \<notin> set (map (\<lambda>s. lower (username s)) xs)" by simp
  moreover have "set (take 10 (sort_key ?f xs)) \<subseteq> set xs"
    using set_take_subset [of 10 "sort_key ?f xs"] by simp
  ultimately have "lower u \<notin> set (map (\<lambda>s. lower (username s)) (take 10 (sort_key ?f xs)))"
    by auto
  then have "find (same_user u) (take 10 (sort_key ?f xs)) = None"
    by (simp add: find_same_user_None)
  then have "add_score u sc now (take 10 (sort_key ?f xs))
      = take 10 (sort_key ?f (take 10 (sort_key ?f xs) @ [?n]))"
    by (rule add_score_new)
  also have "\<dots> = take 10 (sort_key ?f (xs @ [?n]))" by (rule take_sort_key_take)
  finally have step: "add_score u sc now (take 10 (sort_key ?f xs))
      = take 10 (sort_key ?f (xs @ [?n]))" .
  from Cons.prems c have d: "distinct (map (\<lambda>c. lower (fst c)) calls)"
    and "\<forall>c \<in> set calls. lower (fst c) \<notin> set (map (\<lambda>s. lower (username s)) (xs @ [?n]))"
    by force+
  from Cons.IH [OF this] step c show ?case by (simp add: new_entry_def)
qed

lemma add_scores_empty:
  assumes "distinct (map (\<lambda>c. lower (fst c)) calls)"
  shows "add_scores calls [] = take 10 (sort_key (\<lambda>e. - score e) (map new_entry calls))"
  using add_scores_board [OF assms, of "[]"] by simp

lemma scores_descending:
  "map score (sort_key (\<lambda>e. - score e) xs) = rev (sort (map score xs))"
proof -
  let ?ys = "map score (sort_key (\<lambda>e. - score e) xs)"
  have "sorted (map (\<lambda>e. - score e) (sort_key (\<lambda>e. - score e) xs))" by simp
  then have "sorted_wrt (\<lambda>a b. score b \<le> score a) (sort_key (\<lambda>e. - score e) xs)"
    by (simp add: sorted_map)
  then have "sorted (rev ?ys)"
    by (simp add: sorted_wrt_rev sorted_wrt_map rev_map [symmetric] del: rev_map)
  moreover have "mset (rev ?ys) = mset (map score xs)" by simp
  ultimately have "sort (map score xs) = rev ?ys" by (rule properties_for_sort [rotated])
  then show ?thesis by simp
qed





lemma add_scores_from:
  assumes "distinct (map (\<lambda>c. lower (fst c)) calls)"
    and "\<forall>c \<in> set calls. lower (fst c) \<notin> set (map (\<lambda>s. lower (username s)) board)"
    and "calls \<noteq> []"
  shows "add_scores calls board
       = take 10 (sort_key (\<lambda>e. - score e) (board @ map new_entry calls))"
proof -
  from assms(3) obtain c rest where calls: "calls = c # rest" by (cases calls) auto
  obtain u sc now where c: "c = (u, sc, now)" by (cases c)
  let ?n = "\<lparr>username = u, score = sc, date = now\<rparr>"
  from assms(2) calls c have "find (same_user u) board = None"
    by (simp add: find_same_user_None)
  then have 1: "add_score u sc now board = take 10 (sort_key (\<lambda>e. - score e) (board @ [?n]))"
    by (rule add_score_new)
  from assms(1,2) calls c have "distinct (map (\<lambda>c. lower (fst c)) rest)"
    and "\<forall>c \<in> set rest. lower (fst c) \<notin> set (map (\<lambda>s. lower (username s)) (board @ [?n]))"
    by force+
  from add_scores_board [OF this] 1 calls c show ?thesis by (simp add: new_entry_def)
qed



text \<open>
  Claim C6. Whatever the leaderboard and the call, after \<^verbatim>\<open>add_score\<close> the list has
  at most ten records and their scores do not increase along the list. Calls with
  different user names (compared after \<^verbatim>\<open>lower()\<close>), none of them on the leaderboard
  before, leave the ten first records of the old records followed by the new ones, sorted
  by falling score; from the empty leaderboard the scores left are the ten highest of the
  calls, in falling order, and after eleven such calls the list has ten records.
\<close>

theorem add_score_top_ten:
  "length (add_score u sc now scores) \<le> 10 \<and>
   sorted_wrt (\<lambda>a b. score b \<le> score a) (add_score u sc now scores) \<and>
   (distinct (map (\<lambda>c. lower (fst c)) calls) \<and> calls \<noteq> [] \<and>
    (\<forall>c \<in> set calls. \<forall>s \<in> set board. lower (fst c) \<noteq> lower (username s)) \<longrightarrow>
      add_scores calls board =
        take 10 (sort_key (\<lambda>e. - score e) (board @ map new_entry calls))) \<and>
   (distinct (map (\<lambda>c. lower (fst c)) calls) \<longrightarrow>
      add_scores calls [] = take 10 (sort_key (\<lambda>e. - score e) (map new_entry calls)) \<and>
      map score (add_scores calls []) = take 10 (rev (sort (map (\<lambda>c. fst (snd c)) calls)))) \<and>
   (distinct (map (\<lambda>c. lower (fst c)) calls) \<and> length calls = 11 \<longrightarrow>
      length (add_scores calls []) = 10)"
proof -
  have 3: "add_scores calls board =
        take 10 (sort_key (\<lambda>e. - score e) (board @ map new_entry calls))"
    if "distinct (map (\<lambda>c. lower (fst c)) calls)" and "calls \<noteq> []"
      and "\<forall>c \<in> set calls. \<forall>s \<in> set board. lower (fst c) \<noteq> lower (username s)"
  proof -
    from that(3) have "\<forall>c \<in> set calls. lower (fst c) \<notin> set (map (\<lambda>s. lower (username s)) board)"
      by auto
    with that(1) show ?thesis using that(2) by (rule add_scores_from)
  qed
  have 4: "add_scores calls [] = take 10 (sort_key (\<lambda>e. - score e) (map new_entry calls))"
    if "distinct (map (\<lambda>c. lower (fst c)) calls)"
    using that by (rule add_scores_empty)
  have m: "map score (map new_entry calls) = map (\<lambda>c. fst (snd c)) calls"
    by (simp add: new_entry_def)
  have "map score (take 10 (sort_key (\<lambda>e. - score e) (map new_entry calls)))
      = take 10 (map score (sort_key (\<lambda>e. - score e) (map new_entry calls)))"
    by (simp add: take_map)
  also have "\<dots> = take 10 (rev (sort (map score (map new_entry calls))))"
    by (simp only: scores_descending)
  also have "\<dots> = take 10 (rev (sort (map (\<lambda>c. fst (snd c)) calls)))"
    by (simp only: m)
  finally have 5: "map score (take 10 (sort_key (\<lambda>e. - score e) (map new_entry calls)))
      = take 10 (rev (sort (map (\<lambda>c. fst (snd c)) calls)))" .
  have 6: "length (take 10 (sort_key (\<lambda>e. - score e) (map new_entry calls))) = 10"
    if "length calls = 11"
    using that by simp
  from 3 4 5 6 show ?thesis by (simp add: add_score_length add_score_sorted)
qed

theorem add_score_top_ten_witness:
  "distinct (map (\<lambda>c. lower (fst c)) eleven_calls) \<and> length eleven_calls = 11 \<and>
   lower ''Bob'' \<notin> set (map (\<lambda>c. lower (fst c)) eleven_calls) \<and>
   map score (add_scores eleven_calls []) = [110, 100, 90, 80, 70, 60, 50, 40, 30, 20] \<and>
   map username (add_scores eleven_calls []) =
     [''i'', ''k'', ''g'', ''J'', ''e'', ''H'', ''c'', ''F'', ''a'', ''D''] \<and>
   length (add_scores eleven_calls []) = 10 \<and>
   map score (add_scores eleven_calls [bob]) = [110, 100, 90, 90, 80, 70, 60, 50, 40, 30]"
proof -
  have d: "distinct (map (\<lambda>c. lower (fst c)) eleven_calls)"
    by (simp add: eleven_calls_def lower_def lower_char_def)
  have l: "length eleven_calls = 11" "eleven_calls \<noteq> []" by (simp_all add: eleven_calls_def)
  have b: "\<forall>c \<in> set eleven_calls. \<forall>s \<in> set [bob]. lower (fst c) \<noteq> lower (username s)"
    by (simp add: eleven_calls_def bob_def lower_def lower_char_def)
  have s: "take 10 (sort_key (\<lambda>e. - score e) (map new_entry eleven_calls)) =
      map new_entry [(''i'', 110, ''t9''), (''k'', 100, ''t11''), (''g'', 90, ''t7''),
        (''J'', 80, ''t10''), (''e'', 70, ''t5''), (''H'', 60, ''t8''), (''c'', 50, ''t3''),
        (''F'', 40, ''t6''), (''a'', 30, ''t1''), (''D'', 20, ''t4'')]"
    by (simp add: eleven_calls_def new_entry_def)
  have s': "take 10 (sort_key (\<lambda>e. - score e) ([bob] @ map new_entry eleven_calls)) =
      map new_entry [(''i'', 110, ''t9''), (''k'', 100, ''t11''), (''Bob'', 90, ''t0''),
        (''g'', 90, ''t7''),
        (''J'', 80, ''t10''), (''e'', 70, ''t5''), (''H'', 60, ''t8''), (''c'', 50, ''t3''),
        (''F'', 40, ''t6''), (''a'', 30, ''t1'')]"
    by (simp add: eleven_calls_def new_entry_def bob_def)
  from add_score_top_ten [of _ _ _ _ eleven_calls "[bob]"] d l b
  have "add_scores eleven_calls [] = take 10 (sort_key (\<lambda>e. - score e) (map new_entry eleven_calls))"
    and "add_scores eleven_calls [bob] =
      take 10 (sort_key (\<lambda>e. - score e) ([bob] @ map new_entry eleven_calls))"
    by blast+
  moreover have "lower ''Bob'' \<notin> set (map (\<lambda>c. lower (fst c)) eleven_calls)"
    by (simp add: eleven_calls_def lower_def lower_char_def)
  ultimately show ?thesis using s s' d l by (simp add: new_entry_def)
qed

end
